theory Spec2Isabelle
  imports Main
begin

section \<open>Python exceptions and outcomes of a call\<close>

text \<open>
  The module \<^verbatim>\<open>lineage/utils.py\<close> is embedded function by function. Exceptions are
  values: \<open>exn + 'a\<close> is the result of an expression that either raises (\<open>Inl\<close>) or
  returns (\<open>Inr\<close>). \<open>Other\<close> stands for any exception class that the module does not
  distinguish, with its message.
\<close>

datatype exn =
    ValueError
  | TypeError
  | FileExistsError
  | FileNotFoundError
  | NotADirectoryError
  | IsADirectoryError
  | PermissionError
  | KeyError
  | IndexError
  | PicklingError
  | MaybeEncodingError
  | Other string

text \<open>
  A call that waits for worker processes can also wait for ever; \<open>Blocked\<close> is that
  outcome.
\<close>

datatype 'r outcome = Returned 'r | Raised exn | Blocked

section \<open>The worker pool of the standard library\<close>

text \<open>
  \<^verbatim>\<open>multiprocessing.Pool\<close> is not code of the module; it is modelled after CPython's
  \<^verbatim>\<open>Lib/multiprocessing/pool.py\<close>. The process table records what \<^verbatim>\<open>os.cpu_count()\<close>
  returns, how many pools were ever created, how many worker processes were ever
  started and how many are alive.
\<close>

record procs =
  cpu_count :: "nat option"
  pools_created :: nat
  workers_started :: nat
  workers_alive :: nat

text \<open>
  \<^verbatim>\<open>
  if processes is None:
      processes = os.cpu_count() or 1
  if processes < 1:
      raise ValueError("Number of processes must be at least 1")
  \<close>
  A pool that is created starts \<open>processes\<close> workers.
\<close>

definition Pool :: "int option \<Rightarrow> procs \<Rightarrow> exn + (nat \<times> procs)" where
  "Pool processes s =
     (let n = (case processes of
                 None \<Rightarrow> (case cpu_count s of
                            None \<Rightarrow> 1
                          | Some c \<Rightarrow> if c = 0 then 1 else int c)
               | Some k \<Rightarrow> k)
      in if n < 1 then Inl ValueError
         else Inr (nat n,
                   s\<lparr>pools_created := pools_created s + 1,
                     workers_started := workers_started s + nat n,
                     workers_alive := workers_alive s + nat n\<rparr>))"

text \<open>Leaving the \<^verbatim>\<open>with\<close> block terminates the pool's workers.\<close>

definition Pool_terminate :: "nat \<Rightarrow> procs \<Rightarrow> procs" where
  "Pool_terminate w s = s\<lparr>workers_alive := workers_alive s - w\<rparr>"

text \<open>
  \<^verbatim>\<open>
  chunksize, extra = divmod(len(iterable), len(self._pool) * 4)
  if extra:
      chunksize += 1
  if len(iterable) == 0:
      chunksize = 0
  \<close>
\<close>

definition map_chunksize :: "nat \<Rightarrow> nat \<Rightarrow> nat" where
  "map_chunksize len w =
     (let chunksize = len div (w * 4); extra = len mod (w * 4);
          chunksize = (if extra \<noteq> 0 then chunksize + 1 else chunksize)
      in if len = 0 then 0 else chunksize)"

text \<open>
  \<^verbatim>\<open>
  def _get_tasks(func, it, size):
      it = iter(it)
      while 1:
          x = tuple(itertools.islice(it, size))
          if not x:
              return
          yield (func, x)
  \<close>
\<close>

function get_tasks :: "'a list \<Rightarrow> nat \<Rightarrow> 'a list list" where
  "get_tasks it sz =
     (let x = take sz it
      in if x = [] then [] else x # get_tasks (drop sz it) sz)"
  by pat_completeness auto
termination
  by (relation "measure (\<lambda>(it, sz). length it)") auto

declare get_tasks.simps [simp del]

text \<open>
  A worker runs one batch with \<^verbatim>\<open>list(map(func, batch))\<close> and reports either the list
  of results or the first exception that \<^verbatim>\<open>func\<close> raised.
\<close>

fun mapstar :: "('a \<Rightarrow> exn + 'b) \<Rightarrow> 'a list \<Rightarrow> exn + 'b list" where
  "mapstar f [] = Inr []"
| "mapstar f (x # xs) =
     (case f x of
        Inl e \<Rightarrow> Inl e
      | Inr y \<Rightarrow> (case mapstar f xs of Inl e \<Rightarrow> Inl e | Inr ys \<Rightarrow> Inr (y # ys)))"

text \<open>
  The pool sends each batch to a worker process and the worker sends the results back,
  both through a pipe, so both are pickled. Whether \<^verbatim>\<open>pickle\<close> accepts the task
  function (a function defined at the top of a module; not a \<^verbatim>\<open>lambda\<close>, not a local
  function), a task or a result is a fact about the Python objects: the record holds it.
  Exceptions are taken to be picklable.
\<close>

record ('a, 'b) pickling =
  func_picklable :: bool
  task_picklable :: "'a \<Rightarrow> bool"
  result_picklable :: "'b \<Rightarrow> bool"

text \<open>
  What the pool learns about one batch. In the task handler,
  \<^verbatim>\<open>
  try:
      put(task)
  except Exception as e:
      job, idx = task[:2]
      try:
          cache[job]._set(idx, (False, e))
  \<close>
  reports a batch that cannot be pickled as failed. In the worker,
  \<^verbatim>\<open>
  try:
      result = (True, func(*args, **kwds))
  except Exception as e:
      result = (False, e)
  try:
      put((job, i, result))
  except Exception as e:
      wrapped = MaybeEncodingError(e, result[1])
      put((job, i, (False, wrapped)))
  \<close>
  runs \<^verbatim>\<open>mapstar\<close> on the batch and reports results that cannot be pickled as failed.
\<close>

definition run_batch ::
  "('a, 'b) pickling \<Rightarrow> ('a \<Rightarrow> exn + 'b) \<Rightarrow> 'a list \<Rightarrow> exn + 'b list" where
  "run_batch pk func batch =
     (if \<not> (func_picklable pk \<and> list_all (task_picklable pk) batch) then Inl PicklingError
      else case mapstar func batch of
             Inl e \<Rightarrow> Inl e
           | Inr ys \<Rightarrow> if list_all (result_picklable pk) ys then Inr ys
                      else Inl MaybeEncodingError)"

text \<open>
  \<^verbatim>\<open>MapResult\<close> collects the batches. \<^verbatim>\<open>_value\<close> is a list of \<^verbatim>\<open>length\<close> slots, each
  \<^verbatim>\<open>None\<close> at first, or the first exception once a batch has failed; \<open>mr_ready\<close> is
  the event that \<^verbatim>\<open>get\<close> waits for.
\<close>

record 'b map_result =
  mr_success :: bool
  mr_value :: "exn + 'b option list"
  mr_chunksize :: nat
  mr_number_left :: int
  mr_ready :: bool

definition MapResult_init :: "nat \<Rightarrow> nat \<Rightarrow> 'b map_result" where
  "MapResult_init chunksize len =
     \<lparr>mr_success = True,
      mr_value = Inr (replicate len None),
      mr_chunksize = chunksize,
      mr_number_left =
        (if chunksize \<le> 0 then 0
         else int (len div chunksize) + (if len mod chunksize \<noteq> 0 then 1 else 0)),
      mr_ready = (chunksize \<le> 0)\<rparr>"

text \<open>The slice assignment \<^verbatim>\<open>xs[lo:hi] = r\<close> of Python lists, for \<open>0 \<le> lo\<close>, \<open>0 \<le> hi\<close>.\<close>

definition slice_assign :: "'a list \<Rightarrow> nat \<Rightarrow> nat \<Rightarrow> 'a list \<Rightarrow> 'a list" where
  "slice_assign xs lo hi r = take lo xs @ r @ drop (max lo hi) xs"

text \<open>
  \<^verbatim>\<open>
  def _set(self, i, success_result):
      self._number_left -= 1
      success, result = success_result
      if success and self._success:
          self._value[i*self._chunksize:(i+1)*self._chunksize] = result
          if self._number_left == 0: ... self._event.set()
      else:
          if not success and self._success:
              # only store first exception
              self._success = False
              self._value = result
          if self._number_left == 0: ... self._event.set()
  \<close>
\<close>

definition MapResult_set :: "nat \<Rightarrow> exn + 'b list \<Rightarrow> 'b map_result \<Rightarrow> 'b map_result" where
  "MapResult_set i success_result m =
     (let m = m\<lparr>mr_number_left := mr_number_left m - 1\<rparr>;
          m = (case success_result of
                 Inr result \<Rightarrow>
                   (if mr_success m
                    then m\<lparr>mr_value :=
                           (case mr_value m of
                              Inr v \<Rightarrow> Inr (slice_assign v (i * mr_chunksize m)
                                               ((i + 1) * mr_chunksize m) (map Some result))
                            | Inl e \<Rightarrow> Inl e)\<rparr>
                    else m)
               | Inl e \<Rightarrow>
                   (if mr_success m then m\<lparr>mr_success := False, mr_value := Inl e\<rparr> else m))
      in if mr_number_left m = 0 then m\<lparr>mr_ready := True\<rparr> else m)"

text \<open>
  \<^verbatim>\<open>get\<close> waits for the event, then returns the value if \<^verbatim>\<open>_success\<close> and raises it
  otherwise; \<^verbatim>\<open>_success\<close> is false exactly when \<^verbatim>\<open>_value\<close> is an exception.
\<close>

definition MapResult_get :: "'b map_result \<Rightarrow> 'b option list outcome" where
  "MapResult_get m =
     (if \<not> mr_ready m then Blocked
      else case mr_value m of Inr v \<Rightarrow> Returned v | Inl e \<Rightarrow> Raised e)"

text \<open>
  \<^verbatim>\<open>Pool.map(func, iterable)\<close> on a pool of \<open>w\<close> workers. The order in which the
  batches finish is not determined by the program: \<open>sched\<close> lists the batch numbers in
  the order in which their reports arrive. A number that names no batch is no arrival,
  and a result that arrives after the event is set is dropped (the job has left the
  pool's cache).
\<close>

definition handle_result ::
  "('a, 'b) pickling \<Rightarrow> ('a \<Rightarrow> exn + 'b) \<Rightarrow> 'a list list \<Rightarrow> 'b map_result \<Rightarrow> nat
     \<Rightarrow> 'b map_result" where
  "handle_result pk func task_batches m i =
     (if i < length task_batches \<and> \<not> mr_ready m
      then MapResult_set i (run_batch pk func (task_batches ! i)) m
      else m)"

definition Pool_map ::
  "nat \<Rightarrow> ('a, 'b) pickling \<Rightarrow> ('a \<Rightarrow> exn + 'b) \<Rightarrow> 'a list \<Rightarrow> nat list
     \<Rightarrow> 'b option list outcome" where
  "Pool_map w pk func iterable sched =
     (let chunksize = map_chunksize (length iterable) w;
          task_batches = get_tasks iterable chunksize;
          result = MapResult_init chunksize (length iterable);
          result = foldl (handle_result pk func task_batches) result sched
      in MapResult_get result)"

text \<open>
  Every batch reports exactly once: the schedules under which \<^verbatim>\<open>Pool.map\<close> is
  specified to return.
\<close>

definition complete_schedule :: "nat \<Rightarrow> nat list \<Rightarrow> bool" where
  "complete_schedule nbatches sched \<longleftrightarrow> distinct sched \<and> set sched = {..<nbatches}"

section \<open>Parallelizer\<close>

text \<open>
  \<^verbatim>\<open>
  class Parallelizer:
      def __init__(self, parallelize=True, processes=os.cpu_count()):
          self._parallelize = parallelize
          self._processes = processes
  \<close>
  \<^verbatim>\<open>processes\<close> is an integer or \<^verbatim>\<open>None\<close> (what \<^verbatim>\<open>os.cpu_count()\<close> returns when the
  count is unknown).
\<close>

record parallelizer =
  parallelize :: bool
  processes :: "int option"

definition Parallelizer_init :: "bool \<Rightarrow> int option \<Rightarrow> parallelizer" where
  "Parallelizer_init par procs = \<lparr>parallelize = par, processes = procs\<rparr>"

text \<open>
  What \<^verbatim>\<open>__call__\<close> returns: the list that \<^verbatim>\<open>Pool.map\<close> built, or the lazy \<^verbatim>\<open>map\<close>
  object of the builtin, which has applied \<^verbatim>\<open>f\<close> to nothing yet.
\<close>

datatype ('a, 'b) pyseq = PyList "'b option list" | PyMap "'a \<Rightarrow> exn + 'b" "'a list"

text \<open>
  The elements that iterating over the returned object yields (\<^verbatim>\<open>list(r)\<close>); for the
  \<^verbatim>\<open>map\<close> object this is where \<^verbatim>\<open>f\<close> is applied, and only the first iteration yields
  anything.
\<close>

fun elements :: "('a, 'b) pyseq \<Rightarrow> exn + 'b option list" where
  "elements (PyList xs) = Inr xs"
| "elements (PyMap f ts) =
     (case mapstar f ts of Inl e \<Rightarrow> Inl e | Inr ys \<Rightarrow> Inr (map Some ys))"

text \<open>
  \<^verbatim>\<open>len(r)\<close> and \<^verbatim>\<open>r[i]\<close>: a list has a length and items; a \<^verbatim>\<open>map\<close> object has
  neither (\<^verbatim>\<open>TypeError\<close>).
\<close>

fun py_len :: "('a, 'b) pyseq \<Rightarrow> exn + nat" where
  "py_len (PyList xs) = Inr (length xs)"
| "py_len (PyMap f ts) = Inl TypeError"

fun py_getitem :: "('a, 'b) pyseq \<Rightarrow> nat \<Rightarrow> exn + 'b option" where
  "py_getitem (PyList xs) i = (if i < length xs then Inr (xs ! i) else Inl IndexError)"
| "py_getitem (PyMap f ts) i = Inl TypeError"

text \<open>
  \<^verbatim>\<open>r1 == r2\<close> for two objects that two calls have returned: lists are compared item
  by item; a \<^verbatim>\<open>map\<close> object is equal to itself only.
\<close>

fun py_eq :: "('a, 'b) pyseq \<Rightarrow> ('a, 'b) pyseq \<Rightarrow> bool" where
  "py_eq (PyList xs) (PyList ys) = (xs = ys)"
| "py_eq r1 r2 = False"

text \<open>
  \<^verbatim>\<open>
  def __call__(self, f, tasks):
      if self._parallelize:
          with Pool(self._processes) as p:
              return p.map(f, tasks)
      else:
          return map(f, tasks)
  \<close>
  Besides \<^verbatim>\<open>f\<close> and \<^verbatim>\<open>tasks\<close> the model takes what decides the parallel run and is
  not in the program text: what can be pickled, and the order in which the batches
  report.
\<close>

definition call ::
  "parallelizer \<Rightarrow> ('a, 'b) pickling \<Rightarrow> ('a \<Rightarrow> exn + 'b) \<Rightarrow> 'a list \<Rightarrow> nat list \<Rightarrow> procs
     \<Rightarrow> ('a, 'b) pyseq outcome \<times> procs" where
  "call self pk f tasks sched s =
     (if parallelize self
      then (case Pool (processes self) s of
              Inl e \<Rightarrow> (Raised e, s)
            | Inr (w, s1) \<Rightarrow>
                (case Pool_map w pk f tasks sched of
                   Returned r \<Rightarrow> (Returned (PyList r), Pool_terminate w s1)
                 | Raised e \<Rightarrow> (Raised e, Pool_terminate w s1)
                 | Blocked \<Rightarrow> (Blocked, s1)))
      else (Returned (PyMap f tasks), s))"

text \<open>The number of batches of a parallel run, which the schedule ranges over.\<close>

definition call_batches :: "parallelizer \<Rightarrow> 'a list \<Rightarrow> procs \<Rightarrow> nat" where
  "call_batches self tasks s =
     (case Pool (processes self) s of
        Inl e \<Rightarrow> 0
      | Inr (w, s1) \<Rightarrow> length (get_tasks tasks (map_chunksize (length tasks) w)))"

text \<open>
  A worker count that \<^verbatim>\<open>Pool\<close> accepts: \<^verbatim>\<open>None\<close> (the pool then asks for the CPU count
  itself) or an integer of at least 1.
\<close>

definition valid_processes :: "int option \<Rightarrow> bool" where
  "valid_processes p = (case p of None \<Rightarrow> True | Some k \<Rightarrow> 1 \<le> k)"

text \<open>
  Objects to run the runner on: a task function from the top of a module, which squares
  its task; one that raises on every task; and pickling that accepts everything.
\<close>

definition square :: "int \<Rightarrow> exn + int" where
  "square t = Inr (t * t)"

definition always_raises :: "int \<Rightarrow> exn + int" where
  "always_raises t = Inl (Other ''boom'')"

definition all_picklable :: "('a, 'b) pickling" where
  "all_picklable =
     \<lparr>func_picklable = True, task_picklable = (\<lambda>t. True), result_picklable = (\<lambda>y. True)\<rparr>"

text \<open>
  The state of a \<^verbatim>\<open>MapResult\<close> after the batches in \<open>P\<close> have reported, all of them
  successfully, when \<open>g\<close> is the value that the task function returns: used as the
  invariant of the result handler.
\<close>

definition collected ::
  "nat \<Rightarrow> nat \<Rightarrow> ('a \<Rightarrow> 'b) \<Rightarrow> 'a list \<Rightarrow> nat set \<Rightarrow> 'b map_result \<Rightarrow> bool" where
  "collected c nb g xs P m \<longleftrightarrow>
     mr_success m \<and> mr_chunksize m = c \<and>
     mr_number_left m = int nb - int (card P) \<and>
     (mr_ready m \<longleftrightarrow> card P = nb) \<and>
     (\<exists>v. mr_value m = Inr v \<and> length v = length xs \<and>
          (\<forall>j < length xs. j div c \<in> P \<longrightarrow> v ! j = Some (g (xs ! j))))"

text \<open>
  The state of a \<^verbatim>\<open>MapResult\<close> after the batches in \<open>P\<close> have reported when every batch
  fails with the exception \<open>e\<close>: the first report stores \<open>e\<close>, and the event is set with
  the last.
\<close>

definition all_failed :: "exn \<Rightarrow> nat \<Rightarrow> nat set \<Rightarrow> 'b map_result \<Rightarrow> bool" where
  "all_failed e nb P m \<longleftrightarrow>
     mr_number_left m = int nb - int (card P) \<and>
     (mr_ready m \<longleftrightarrow> card P = nb) \<and>
     (if P = {} then mr_success m else \<not> mr_success m \<and> mr_value m = Inl e)"

section \<open>Singleton\<close>

text \<open>
  \<^verbatim>\<open>
  class Singleton(type):
      _instances = {}

      def __call__(cls, *args, **kwargs):
          if cls not in cls._instances:
              cls._instances[cls] = super(Singleton, cls).__call__(*args, **kwargs)
          return cls._instances[cls]
  \<close>
  The interpreter state that the metaclass works on: the objects on the heap (a
  reference is an index into the list), each with its class and its contents; the
  dictionary \<^verbatim>\<open>_instances\<close>, from classes to references; and the log of the constructor
  invocations, with the class and the arguments of each.
\<close>

record ('c, 'x, 'v) interp =
  objects :: "('c \<times> 'v) list"
  instances :: "'c \<rightharpoonup> nat"
  constructed :: "('c \<times> 'x) list"

definition interp_init :: "('c, 'x, 'v) interp" where
  "interp_init = \<lparr>objects = [], instances = Map.empty, constructed = []\<rparr>"

text \<open>
  \<^verbatim>\<open>type.__call__(cls, *args, **kwargs)\<close> runs the constructor of the class
  (\<^verbatim>\<open>__new__\<close> and \<^verbatim>\<open>__init__\<close>), here \<open>ctor cls args\<close>, which raises or gives the
  contents of the new object. The new object gets a fresh reference.
\<close>

definition type_call ::
  "('c \<Rightarrow> 'x \<Rightarrow> exn + 'v) \<Rightarrow> 'c \<Rightarrow> 'x \<Rightarrow> ('c, 'x, 'v) interp
     \<Rightarrow> (exn + nat) \<times> ('c, 'x, 'v) interp" where
  "type_call ctor cls args st =
     (let st = st\<lparr>constructed := constructed st @ [(cls, args)]\<rparr>
      in case ctor cls args of
           Inl e \<Rightarrow> (Inl e, st)
         | Inr v \<Rightarrow> (Inr (length (objects st)), st\<lparr>objects := objects st @ [(cls, v)]\<rparr>))"

definition Singleton_call ::
  "('c \<Rightarrow> 'x \<Rightarrow> exn + 'v) \<Rightarrow> 'c \<Rightarrow> 'x \<Rightarrow> ('c, 'x, 'v) interp
     \<Rightarrow> (exn + nat) \<times> ('c, 'x, 'v) interp" where
  "Singleton_call ctor cls args st =
     (case (if instances st cls = None
            then (case type_call ctor cls args st of
                    (Inl e, st1) \<Rightarrow> (Some e, st1)
                  | (Inr r, st1) \<Rightarrow> (None, st1\<lparr>instances := (instances st1)(cls \<mapsto> r)\<rparr>))
            else (None, st)) of
        (Some e, st2) \<Rightarrow> (Inl e, st2)
      | (None, st2) \<Rightarrow>
          (case instances st2 cls of
             None \<Rightarrow> (Inl KeyError, st2)
           | Some r \<Rightarrow> (Inr r, st2)))"

text \<open>
  A process instantiates classes one after the other; whether an instantiation
  returned or raised, the process goes on from the state it left.
\<close>

fun instantiate_all ::
  "('c \<Rightarrow> 'x \<Rightarrow> exn + 'v) \<Rightarrow> ('c, 'x, 'v) interp \<Rightarrow> ('c \<times> 'x) list
     \<Rightarrow> ('c, 'x, 'v) interp" where
  "instantiate_all ctor st [] = st"
| "instantiate_all ctor st ((cls, args) # calls) =
     instantiate_all ctor (snd (Singleton_call ctor cls args st)) calls"

text \<open>The references of the objects of a class on the heap.\<close>

definition instances_of :: "('c, 'x, 'v) interp \<Rightarrow> 'c \<Rightarrow> nat list" where
  "instances_of st cls = filter (\<lambda>r. fst (objects st ! r) = cls) [0..<length (objects st)]"

text \<open>
  The registry agrees with the heap: a class is registered exactly when the heap has
  an object of it, and then that object is the only one and the registered one.
\<close>

definition registry_ok :: "('c, 'x, 'v) interp \<Rightarrow> bool" where
  "registry_ok st \<longleftrightarrow>
     (\<forall>cls. instances_of st cls = (case instances st cls of None \<Rightarrow> [] | Some r \<Rightarrow> [r]))"

text \<open>
  A constructor table to run the metaclass on: every class takes a number and keeps
  it, and rejects 0.
\<close>

definition example_ctor :: "string \<Rightarrow> nat \<Rightarrow> exn + nat" where
  "example_ctor cls args = (if args = 0 then Inl ValueError else Inr args)"

section \<open>The file system and the operating-system interface\<close>

text \<open>
  A path is the list of names from the root to a file or directory; a name is one
  path component (not empty, no separator, not \<^verbatim>\<open>.\<close> or \<^verbatim>\<open>..\<close>). The file system
  maps paths to nodes; the root is a directory that always exists. In a \<open>protected\<close>
  directory the process may not create or replace entries.
\<close>

type_synonym path = "string list"

datatype node = Dir | File string

record filesys =
  nodes :: "path \<rightharpoonup> node"
  protected :: "path set"

definition lookup :: "filesys \<Rightarrow> path \<Rightarrow> node option" where
  "lookup fs p = (if p = [] then Some Dir else nodes fs p)"

text \<open>\<^verbatim>\<open>os.path.exists\<close> and \<^verbatim>\<open>os.path.isdir\<close>.\<close>

definition os_path_exists :: "filesys \<Rightarrow> path \<Rightarrow> bool" where
  "os_path_exists fs p \<longleftrightarrow> lookup fs p \<noteq> None"

definition os_path_isdir :: "filesys \<Rightarrow> path \<Rightarrow> bool" where
  "os_path_isdir fs p \<longleftrightarrow> lookup fs p = Some Dir"

text \<open>
  \<^verbatim>\<open>os.mkdir\<close>: the parent must be a directory; the path must be free; the parent must
  be writable. A failure changes nothing.
\<close>

definition os_mkdir :: "filesys \<Rightarrow> path \<Rightarrow> exn + filesys" where
  "os_mkdir fs p =
     (if p = [] then Inl FileExistsError
      else case lookup fs (butlast p) of
             None \<Rightarrow> Inl FileNotFoundError
           | Some (File c) \<Rightarrow> Inl NotADirectoryError
           | Some Dir \<Rightarrow>
               if lookup fs p \<noteq> None then Inl FileExistsError
               else if butlast p \<in> protected fs then Inl PermissionError
               else Inr (fs\<lparr>nodes := (nodes fs)(p \<mapsto> Dir)\<rparr>))"

text \<open>
  \<^verbatim>\<open>os.makedirs\<close> of the standard library, after CPython's \<^verbatim>\<open>Lib/os.py\<close>:
  \<^verbatim>\<open>
  def makedirs(name, mode=0o777, exist_ok=False):
      head, tail = path.split(name)
      if not tail:
          head, tail = path.split(head)
      if head and tail and not path.exists(head):
          try:
              makedirs(head, exist_ok=exist_ok)
          except FileExistsError:
              pass
          ...
      try:
          mkdir(name, mode)
      except OSError:
          if not exist_ok or not path.isdir(name):
              raise
  \<close>
  For a list of names, \<^verbatim>\<open>head\<close> is the list without its last name and \<^verbatim>\<open>tail\<close> is the last
  name; the root has no \<^verbatim>\<open>tail\<close>. The result is the exception raised, if any, and the
  file system as the call leaves it: the directories made before a failure stay.
  \<open>mkdir_leaf\<close> is the last statement, the \<^verbatim>\<open>mkdir\<close> in its \<^verbatim>\<open>try\<close> block.
\<close>

definition mkdir_leaf :: "filesys \<Rightarrow> path \<Rightarrow> bool \<Rightarrow> exn option \<times> filesys" where
  "mkdir_leaf fs1 name exist_ok =
     (case os_mkdir fs1 name of
        Inr fs2 \<Rightarrow> (None, fs2)
      | Inl e \<Rightarrow>
          if \<not> exist_ok \<or> \<not> os_path_isdir fs1 name then (Some e, fs1) else (None, fs1))"

function os_makedirs :: "filesys \<Rightarrow> path \<Rightarrow> bool \<Rightarrow> exn option \<times> filesys" where
  "os_makedirs fs name exist_ok =
     (let (err, fs1) =
            (if name \<noteq> [] \<and> \<not> os_path_exists fs (butlast name)
             then (case os_makedirs fs (butlast name) exist_ok of
                     (Some FileExistsError, fs') \<Rightarrow> (None, fs')
                   | r \<Rightarrow> r)
             else (None, fs))
      in case err of
           Some e \<Rightarrow> (Some e, fs1)
         | None \<Rightarrow> mkdir_leaf fs1 name exist_ok)"
  by pat_completeness auto
termination
  by (relation "measure (\<lambda>(fs, name, exist_ok). length name)") auto

declare os_makedirs.simps [simp del]

text \<open>What \<^verbatim>\<open>print\<close> has written: an exception, or one of the two messages.\<close>

datatype printed = PrintedExn exn | PrintedSaving path | PrintedNoData

text \<open>
  The world of the two functions that touch the disk: the file system, the standard
  output, and the clock that \<^verbatim>\<open>datetime.datetime.utcnow()\<close> reads.
\<close>

record datetime =
  year :: nat
  month :: nat
  day :: nat
  hour :: nat
  minute :: nat
  second :: nat

record world =
  disk :: filesys
  stdout :: "printed list"
  utcnow :: datetime

definition print :: "printed \<Rightarrow> world \<Rightarrow> world" where
  "print x w = w\<lparr>stdout := stdout w @ [x]\<rparr>"

section \<open>create\_dir\<close>

text \<open>
  \<^verbatim>\<open>
  def create_dir(path):
      try:
          os.makedirs(path, exist_ok=True)
      except Exception as err:
          print(err)
          return False

      if os.path.exists(path):
          return True
      else:
          return False
  \<close>
\<close>

definition create_dir :: "path \<Rightarrow> world \<Rightarrow> bool \<times> world" where
  "create_dir path w =
     (case os_makedirs (disk w) path True of
        (Some err, fs1) \<Rightarrow> (False, print (PrintedExn err) (w\<lparr>disk := fs1\<rparr>))
      | (None, fs1) \<Rightarrow>
          (if os_path_exists fs1 path then (True, w\<lparr>disk := fs1\<rparr>)
           else (False, w\<lparr>disk := fs1\<rparr>)))"

section \<open>Tables and their CSV text\<close>

text \<open>
  A \<^verbatim>\<open>pandas.DataFrame\<close>, as far as writing it needs: the column names and the rows,
  each with its index label and its cells; a cell is text or missing (\<open>None\<close>). Labels,
  names and cells are text that the CSV writer does not have to quote. \<^verbatim>\<open>len(df)\<close> is
  the number of rows.
\<close>

record dataframe =
  columns :: "string list"
  rows :: "(string \<times> string option list) list"

text \<open>The objects that a caller may pass as \<^verbatim>\<open>df\<close>.\<close>

datatype pyobj =
    NoneObj
  | IntObj int
  | StrObj string
  | is_DataFrame: DataFrame dataframe

text \<open>
  The keyword arguments that the caller may hand on to \<^verbatim>\<open>DataFrame.to_csv\<close>, each with
  the default that \<^verbatim>\<open>to_csv\<close> gives it when the caller leaves it out.
\<close>

record to_csv_kwargs =
  sep :: string
  header :: bool
  index :: bool

definition no_kwargs :: to_csv_kwargs where
  "no_kwargs = \<lparr>sep = '','', header = True, index = True\<rparr>"

text \<open>\<^verbatim>\<open>sep.join(fields)\<close>.\<close>

fun join :: "string \<Rightarrow> string list \<Rightarrow> string" where
  "join s [] = []"
| "join s [x] = x"
| "join s (x # y # ys) = x @ s @ join s (y # ys)"

definition csv_line :: "string \<Rightarrow> string list \<Rightarrow> string" where
  "csv_line s xs = join s xs @ [CHR 0x0A]"

text \<open>A cell as \<^verbatim>\<open>to_csv\<close> writes it: a missing cell is written as \<^verbatim>\<open>na_rep\<close>.\<close>

definition render_cell :: "string \<Rightarrow> string option \<Rightarrow> string" where
  "render_cell na_rep c = (case c of None \<Rightarrow> na_rep | Some t \<Rightarrow> t)"

definition header_row :: "to_csv_kwargs \<Rightarrow> dataframe \<Rightarrow> string" where
  "header_row kw df = csv_line (sep kw) ((if index kw then [''''] else []) @ columns df)"

definition data_row :: "string \<Rightarrow> to_csv_kwargs \<Rightarrow> string \<times> string option list \<Rightarrow> string" where
  "data_row na_rep kw r =
     csv_line (sep kw) ((if index kw then [fst r] else []) @ map (render_cell na_rep) (snd r))"

text \<open>
  \<^verbatim>\<open>df.to_csv(f, na_rep=..., **kwargs)\<close>, the text it writes to \<^verbatim>\<open>f\<close>: the header row
  unless \<^verbatim>\<open>header=False\<close>, then one line per row; the index label leads each line
  unless \<^verbatim>\<open>index=False\<close>. A separator that is not one character is a \<^verbatim>\<open>TypeError\<close>.
\<close>

definition to_csv :: "dataframe \<Rightarrow> string \<Rightarrow> to_csv_kwargs \<Rightarrow> exn + string" where
  "to_csv df na_rep kw =
     (if length (sep kw) \<noteq> 1 then Inl TypeError
      else Inr (concat ((if header kw then [header_row kw df] else []) @
                        map (data_row na_rep kw) (rows df))))"

section \<open>Time stamps, paths as text, atomic writes\<close>

text \<open>\<^verbatim>\<open>strftime("%Y-%m-%d %H:%M:%S")\<close>, for the years 1000 to 9999.\<close>

definition digit :: "nat \<Rightarrow> char" where
  "digit n = ''0123456789'' ! (n mod 10)"

definition pad2 :: "nat \<Rightarrow> string" where
  "pad2 n = [digit (n div 10), digit n]"

definition pad4 :: "nat \<Rightarrow> string" where
  "pad4 n = [digit (n div 1000), digit (n div 100), digit (n div 10), digit n]"

definition strftime :: "datetime \<Rightarrow> string" where
  "strftime t =
     pad4 (year t) @ ''-'' @ pad2 (month t) @ ''-'' @ pad2 (day t) @ '' '' @
     pad2 (hour t) @ '':'' @ pad2 (minute t) @ '':'' @ pad2 (second t)"

text \<open>\<^verbatim>\<open>os.path.join(path, filename)\<close> for a file name that is one name.\<close>

definition os_path_join :: "path \<Rightarrow> string \<Rightarrow> path" where
  "os_path_join p filename = p @ [filename]"

text \<open>The path as the string that Python has: never the empty string.\<close>

definition path_str :: "path \<Rightarrow> string" where
  "path_str p = (if p = [] then ''/'' else concat (map (\<lambda>n. ''/'' @ n) p))"

text \<open>
  \<^verbatim>\<open>with atomic_write(destination, mode="w", overwrite=True) as f: body\<close> of the
  \<^verbatim>\<open>atomicwrites\<close> package: a temporary file is opened in the directory of the
  destination, the body writes to it, and the temporary file is renamed onto the
  destination; if the body or the renaming raises, the temporary file is removed and
  the exception goes on. \<open>body\<close> is what the body does: it raises, or it has written a
  text. The temporary file is not in the result: it is gone either way.
\<close>

definition atomic_write :: "filesys \<Rightarrow> path \<Rightarrow> exn + string \<Rightarrow> exn option \<times> filesys" where
  "atomic_write fs destination body =
     (if destination = [] then (Some IsADirectoryError, fs)
      else case lookup fs (butlast destination) of
             None \<Rightarrow> (Some FileNotFoundError, fs)
           | Some (File c) \<Rightarrow> (Some NotADirectoryError, fs)
           | Some Dir \<Rightarrow>
               if butlast destination \<in> protected fs then (Some PermissionError, fs)
               else (case body of
                       Inl e \<Rightarrow> (Some e, fs)
                     | Inr content \<Rightarrow>
                         (case lookup fs destination of
                            Some Dir \<Rightarrow> (Some IsADirectoryError, fs)
                          | _ \<Rightarrow> (None, fs\<lparr>nodes := (nodes fs)(destination \<mapsto> File content)\<rparr>))))"

section \<open>save\_df\_as\_csv\<close>

text \<open>
  The two comment lines that the function puts first; \<open>version\<close> is
  \<^verbatim>\<open>lineage.__version__\<close>, a constant of the package that this module does not define.
  \<^verbatim>\<open>
  s = (
      "# Generated by lineage v{}, https://github.com/apriha/lineage\n"
      "# Generated at {} UTC\n"
  )
  s = s.format(lineage.__version__,
               datetime.datetime.utcnow().strftime("%Y-%m-%d %H:%M:%S"))
  \<close>
\<close>

definition provenance_line :: "string \<Rightarrow> string" where
  "provenance_line version =
     ''# Generated by lineage v'' @ version @ '', https://github.com/apriha/lineage'' @ [CHR 0x0A]"

definition timestamp_line :: "datetime \<Rightarrow> string" where
  "timestamp_line t = ''# Generated at '' @ strftime t @ '' UTC'' @ [CHR 0x0A]"

text \<open>
  \<^verbatim>\<open>
  def save_df_as_csv(df, path, filename, comment="", **kwargs):
      if isinstance(df, pd.DataFrame) and len(df) > 0:
          try:
              if not create_dir(path):
                  return ""
              destination = os.path.join(path, filename)
              print("Saving " + os.path.relpath(destination))
              s = (...)
              s = s.format(...)
              s += comment
              with atomic_write(destination, mode="w", overwrite=True) as f:
                  f.write(s)
                  df.to_csv(f, na_rep="--", **kwargs)
              return destination
          except Exception as err:
              print(err)
              return ""
      else:
          print("no data to save...")
          return ""
  \<close>
\<close>

definition save_df_as_csv ::
  "string \<Rightarrow> pyobj \<Rightarrow> path \<Rightarrow> string \<Rightarrow> string \<Rightarrow> to_csv_kwargs \<Rightarrow> world \<Rightarrow> string \<times> world" where
  "save_df_as_csv version df path filename comment kwargs w =
     (case (case df of DataFrame d \<Rightarrow> if 0 < length (rows d) then Some d else None
                     | _ \<Rightarrow> None) of
        Some d \<Rightarrow>
          (case create_dir path w of
             (False, w1) \<Rightarrow> ('''', w1)
           | (True, w1) \<Rightarrow>
               (let destination = os_path_join path filename;
                    w2 = print (PrintedSaving destination) w1;
                    s = provenance_line version @ timestamp_line (utcnow w2);
                    s = s @ comment
                in case atomic_write (disk w2) destination
                          (case to_csv d ''--'' kwargs of
                             Inl e \<Rightarrow> Inl e
                           | Inr table \<Rightarrow> Inr (s @ table)) of
                     (None, fs1) \<Rightarrow> (path_str destination, w2\<lparr>disk := fs1\<rparr>)
                   | (Some err, fs1) \<Rightarrow> ('''', print (PrintedExn err) (w2\<lparr>disk := fs1\<rparr>))))
      | None \<Rightarrow> ('''', print PrintedNoData w))"

text \<open>The regular files of a file system, with their contents.\<close>

definition files :: "filesys \<Rightarrow> (path \<times> string) set" where
  "files fs = {(p, c). lookup fs p = Some (File c)}"

text \<open>
  A small world to run the functions in: a directory \<^verbatim>\<open>/data\<close> with one file, and a
  directory \<^verbatim>\<open>/ro\<close> in which nothing may be created; and a table of two rows with one
  missing cell.
\<close>

definition example_world :: world where
  "example_world =
     \<lparr>disk = \<lparr>nodes = [[''data''] \<mapsto> Dir, [''data'', ''old.csv''] \<mapsto> File ''x'',
                       [''ro''] \<mapsto> Dir],
              protected = {[''ro'']}\<rparr>,
      stdout = [],
      utcnow = \<lparr>year = 2019, month = 3, day = 7, hour = 9, minute = 5, second = 0\<rparr>\<rparr>"

definition example_df :: dataframe where
  "example_df =
     \<lparr>columns = [''chrom'', ''pos''],
      rows = [(''rs1'', [Some ''1'', Some ''100'']), (''rs2'', [None, Some ''200''])]\<rparr>"

section \<open>The pool returns the results in task order\<close>

text \<open>\<^verbatim>\<open>_success\<close> is true exactly when \<^verbatim>\<open>_value\<close> is the list of slots.\<close>

lemma MapResult_init_success_value:
  "mr_success (MapResult_init c n) \<and> (\<exists>v. mr_value (MapResult_init c n) = Inr v)"
  by (simp add: MapResult_init_def)

lemma MapResult_set_success_value:
  assumes "mr_success m \<longleftrightarrow> (\<exists>v. mr_value m = Inr v)"
  shows "mr_success (MapResult_set i r m) \<longleftrightarrow> (\<exists>v. mr_value (MapResult_set i r m) = Inr v)"
  using assms by (auto simp: MapResult_set_def Let_def split: sum.splits)

lemma get_tasks_zero: "get_tasks xs 0 = []"
  by (simp add: get_tasks.simps)

lemma get_tasks_Nil: "get_tasks [] c = []"
  by (simp add: get_tasks.simps)

lemma get_tasks_length:
  "0 < c \<Longrightarrow> length (get_tasks xs c) = length xs div c + (if length xs mod c \<noteq> 0 then 1 else 0)"
proof (induction xs c rule: get_tasks.induct)
  case (1 it sz)
  show ?case
  proof (cases "it = []")
    case True
    then show ?thesis by (simp add: get_tasks_Nil)
  next
    case False
    with 1 have ne: "take sz it \<noteq> []" by simp
    have IH: "length (get_tasks (drop sz it) sz) =
        length (drop sz it) div sz + (if length (drop sz it) mod sz \<noteq> 0 then 1 else 0)"
      using 1 ne by simp
    show ?thesis
    proof (cases "length it < sz")
      case True
      then show ?thesis using False IH ne
        by (subst get_tasks.simps) (simp add: Let_def get_tasks_Nil)
    next
      case False
      then have le: "sz \<le> length it" by simp
      have d: "(length it - sz) div sz + 1 = length it div sz"
        using le 1(2) by (simp add: le_div_geq)
      have m: "(length it - sz) mod sz = length it mod sz"
        using le by (simp add: le_mod_geq)
      show ?thesis using IH ne d m
        by (subst get_tasks.simps) (simp add: Let_def)
    qed
  qed
qed

lemma get_tasks_nth:
  "0 < c \<Longrightarrow> i < length (get_tasks xs c) \<Longrightarrow> get_tasks xs c ! i = take c (drop (i * c) xs)"
proof (induction xs c arbitrary: i rule: get_tasks.induct)
  case (1 it sz)
  show ?case
  proof (cases "take sz it = []")
    case True
    then show ?thesis using 1(3) by (subst (asm) get_tasks.simps) simp
  next
    case False
    show ?thesis
    proof (cases i)
      case 0
      then show ?thesis using False by (subst get_tasks.simps) (simp add: Let_def)
    next
      case (Suc j)
      have "j < length (get_tasks (drop sz it) sz)"
        using 1(3) False Suc by (subst (asm) get_tasks.simps) (simp add: Let_def)
      then have "get_tasks (drop sz it) sz ! j = take sz (drop (j * sz) (drop sz it))"
        using 1(1)[OF refl False] 1(2) by simp
      then show ?thesis using False Suc
        by (subst get_tasks.simps) (simp add: Let_def add.commute)
    qed
  qed
qed

lemma mapstar_returns:
  "\<forall>t \<in> set xs. f t = Inr (g t) \<Longrightarrow> mapstar f xs = Inr (map g xs)"
  by (induction xs) auto

lemma map_chunksize_pos: "0 < n \<Longrightarrow> 0 < w \<Longrightarrow> 0 < map_chunksize n w"
  by (auto simp: map_chunksize_def Let_def div_greater_zero_iff dest: dvd_imp_le)

lemma batch_start_less:
  assumes "0 < c" and "i < n div c + (if n mod c \<noteq> 0 then 1 else 0)"
  shows "i * c < (n::nat)"
proof (cases "n mod c = 0")
  case True
  with assms have "i < n div c" by simp
  then have "i * c < (n div c) * c" using assms(1) by simp
  also have "\<dots> = n" using True by (simp add: mod_0_imp_dvd)
  finally show ?thesis .
next
  case False
  with assms have "i \<le> n div c" by simp
  then have "i * c \<le> (n div c) * c" by simp
  also have "\<dots> < n" using False assms(1)
    by (metis div_mult_mod_eq less_add_same_cancel1 neq0_conv)
  finally show ?thesis .
qed

lemma batch_index_less:
  assumes "0 < c" and "j < (n::nat)"
  shows "j div c < n div c + (if n mod c \<noteq> 0 then 1 else 0)"
proof (cases "n mod c = 0")
  case True
  then have "n = (n div c) * c" by (simp add: mod_0_imp_dvd)
  with assms have "j < (n div c) * c" by simp
  then have "j div c < n div c" by (rule less_mult_imp_div_less)
  with True show ?thesis by simp
next
  case False
  have "j div c \<le> n div c" using assms(2) by (simp add: div_le_mono)
  with False show ?thesis by simp
qed

lemma slice_assign_length:
  assumes "lo \<le> length v" and "length r = min c (length v - lo)"
  shows "length (slice_assign v lo (lo + c) r) = length v"
  using assms by (auto simp: slice_assign_def min_def)

lemma slice_assign_nth:
  assumes "lo \<le> length v" and "length r = min c (length v - lo)" and "j < length v"
  shows "slice_assign v lo (lo + c) r ! j =
           (if lo \<le> j \<and> j < lo + c then r ! (j - lo) else v ! j)"
  using assms by (auto simp: slice_assign_def nth_append min_def)

lemma batch_of_div:
  assumes "0 < c" 
  shows "(i * c \<le> j \<and> j < i * c + c) \<longleftrightarrow> j div c = (i::nat)"
proof
  assume "i * c \<le> j \<and> j < i * c + c"
  then show "j div c = i"
    using assms by (metis div_nat_eqI mult.commute mult_Suc_right add.commute)
next
  assume h: "j div c = i"
  have "j = i * c + j mod c" using h by (metis div_mult_mod_eq)
  moreover have "j mod c < c" using assms by simp
  ultimately show "i * c \<le> j \<and> j < i * c + c" by linarith
qed

lemma collected_set:
  assumes inv: "collected c nb g xs P m"
      and P: "finite P" "P \<subseteq> {..<nb}" "i \<notin> P" "i < nb"
      and c: "0 < c"
      and nb: "nb = length xs div c + (if length xs mod c \<noteq> 0 then 1 else 0)"
      and rb: "\<forall>b. set b \<subseteq> set xs \<longrightarrow> run_batch pk f b = Inr (map g b)"
  shows "collected c nb g xs (insert i P)
           (MapResult_set i (run_batch pk f (take c (drop (i * c) xs))) m)"
proof -
  let ?b = "take c (drop (i * c) xs)"
  from inv obtain v where v: "mr_value m = Inr v" "length v = length xs"
      "\<forall>j < length xs. j div c \<in> P \<longrightarrow> v ! j = Some (g (xs ! j))"
    and m: "mr_success m" "mr_chunksize m = c"
      "mr_number_left m = int nb - int (card P)" "mr_ready m \<longleftrightarrow> card P = nb"
    by (auto simp: collected_def)
  have "set ?b \<subseteq> set xs"
    by (meson set_take_subset set_drop_subset subset_trans)
  then have ms: "run_batch pk f ?b = Inr (map g ?b)"
    using rb by blast
  have lo: "i * c < length xs" using batch_start_less [OF c] P(4) nb by simp
  have lb: "length (map Some (map g ?b)) = min c (length v - i * c)"
    using v(2) by simp
  let ?v' = "slice_assign v (i * c) ((i + 1) * c) (map Some (map g ?b))"
  have hi: "(i + 1) * c = i * c + c" by simp
  have len: "length ?v' = length xs"
    unfolding hi using slice_assign_length [OF _ lb] lo v(2) by simp
  have nth: "?v' ! j = Some (g (xs ! j))" if j: "j < length xs" "j div c \<in> insert i P" for j
  proof (cases "j div c = i")
    case True
    then have r: "i * c \<le> j \<and> j < i * c + c" using batch_of_div [OF c] by blast
    have "j - i * c < length xs - i * c \<and> j - i * c < c" using j(1) r by arith
    moreover have "i * c + (j - i * c) = j" using r by simp
    ultimately have "map Some (map g ?b) ! (j - i * c) = Some (g (xs ! j))"
      using lo by (simp add: nth_drop)
    then show ?thesis
      unfolding hi using slice_assign_nth [OF _ lb, of j] lo v(2) j(1) r by simp
  next
    case False
    then have nr: "\<not> (i * c \<le> j \<and> j < i * c + c)" using batch_of_div [OF c] by blast
    from False j(2) have "j div c \<in> P" by simp
    then have "v ! j = Some (g (xs ! j))" using v(3) j(1) by simp
    then show ?thesis
      unfolding hi using slice_assign_nth [OF _ lb, of j] lo v(2) j(1) nr by auto
  qed
  have "card P < nb"
  proof -
    have "P \<subset> {..<nb}" using P by blast
    then have "card P < card {..<nb}" by (intro psubset_card_mono) simp_all
    then show ?thesis by simp
  qed
  then have cardi: "card (insert i P) = Suc (card P)" "Suc (card P) \<le> nb"
    using P by simp_all
  show ?thesis
    unfolding collected_def MapResult_set_def ms
    using m v(1) len nth cardi \<open>card P < nb\<close> by (auto simp: Let_def)
qed

lemma collected_foldl:
  assumes c: "0 < c"
      and rb: "\<forall>b. set b \<subseteq> set xs \<longrightarrow> run_batch pk f b = Inr (map g b)"
  shows "collected c (length (get_tasks xs c)) g xs P m \<Longrightarrow> finite P \<Longrightarrow>
         P \<subseteq> {..<length (get_tasks xs c)} \<Longrightarrow> distinct sched \<Longrightarrow>
         set sched \<subseteq> {..<length (get_tasks xs c)} \<Longrightarrow> set sched \<inter> P = {} \<Longrightarrow>
         collected c (length (get_tasks xs c)) g xs (P \<union> set sched)
           (foldl (handle_result pk f (get_tasks xs c)) m sched)"
proof (induction sched arbitrary: P m)
  case Nil
  then show ?case by simp
next
  case (Cons i sched)
  let ?nb = "length (get_tasks xs c)"
  have i: "i < ?nb" "i \<notin> P" using Cons.prems by auto
  have "P \<subset> {..<?nb}" using i Cons.prems(3) by blast
  then have "card P < card {..<?nb}" by (intro psubset_card_mono) simp_all
  then have nr: "\<not> mr_ready m" using Cons.prems(1) by (simp add: collected_def)
  have step: "handle_result pk f (get_tasks xs c) m i =
      MapResult_set i (run_batch pk f (take c (drop (i * c) xs))) m"
    using i nr get_tasks_nth [OF c i(1)] by (simp add: handle_result_def)
  have inv': "collected c ?nb g xs (insert i P) (handle_result pk f (get_tasks xs c) m i)"
    unfolding step
    by (rule collected_set [OF Cons.prems(1) Cons.prems(2) Cons.prems(3) i(2) i(1) c
          get_tasks_length [OF c] rb])
  have "collected c ?nb g xs (insert i P \<union> set sched)
          (foldl (handle_result pk f (get_tasks xs c)) (handle_result pk f (get_tasks xs c) m i) sched)"
    using Cons.prems i by (intro Cons.IH [OF inv']) auto
  then show ?case by simp
qed

lemma collected_init:
  assumes "0 < c" and "0 < length xs"
  shows "collected c (length (get_tasks xs c)) g xs {} (MapResult_init c (length xs))"
proof -
  have "0 < length (get_tasks xs c)"
    using batch_index_less [OF assms] get_tasks_length [OF assms(1), of xs] by simp
  then show ?thesis
    using assms get_tasks_length [OF assms(1), of xs]
    by (simp add: collected_def MapResult_init_def)
qed

lemma collected_all:
  assumes "0 < c" and "collected c (length (get_tasks xs c)) g xs {..<length (get_tasks xs c)} m"
  shows "MapResult_get m = Returned (map (Some \<circ> g) xs)"
proof -
  from assms(2) obtain v where v: "mr_value m = Inr v" "length v = length xs"
      "\<forall>j < length xs. j div c < length (get_tasks xs c) \<longrightarrow> v ! j = Some (g (xs ! j))"
    and r: "mr_ready m"
    by (auto simp: collected_def)
  have "v ! j = Some (g (xs ! j))" if "j < length xs" for j
    using v(3) that batch_index_less [OF assms(1) that] get_tasks_length [OF assms(1), of xs]
    by simp
  then have "v = map (Some \<circ> g) xs"
    using v(2) by (intro nth_equalityI) simp_all
  then show ?thesis using v(1) r by (simp add: MapResult_get_def)
qed

lemma run_batch_returns:
  assumes "func_picklable pk"
      and "\<forall>t \<in> set xs. task_picklable pk t \<and> f t = Inr (g t) \<and> result_picklable pk (g t)"
      and "set b \<subseteq> set xs"
  shows "run_batch pk f b = Inr (map g b)"
proof -
  have "\<forall>t \<in> set b. f t = Inr (g t)" using assms(2,3) by blast
  then have "mapstar f b = Inr (map g b)" by (rule mapstar_returns)
  moreover have "list_all (task_picklable pk) b" "list_all (result_picklable pk) (map g b)"
    using assms(2,3) by (auto simp: list_all_iff)
  ultimately show ?thesis using assms(1) by (simp add: run_batch_def)
qed

lemma Pool_map_returns:
  assumes w: "0 < w"
      and rb: "\<forall>b. set b \<subseteq> set xs \<longrightarrow> run_batch pk f b = Inr (map g b)"
      and sched: "complete_schedule (length (get_tasks xs (map_chunksize (length xs) w))) sched"
  shows "Pool_map w pk f xs sched = Returned (map (Some \<circ> g) xs)"
proof (cases "xs = []")
  case True
  then have "sched = []"
    using sched by (simp add: complete_schedule_def map_chunksize_def get_tasks_Nil)
  then show ?thesis using True
    by (simp add: Pool_map_def map_chunksize_def get_tasks_Nil MapResult_init_def MapResult_get_def)
next
  case False
  let ?c = "map_chunksize (length xs) w"
  have c: "0 < ?c" using False w by (intro map_chunksize_pos) simp_all
  have "collected ?c (length (get_tasks xs ?c)) g xs ({} \<union> set sched)
          (foldl (handle_result pk f (get_tasks xs ?c)) (MapResult_init ?c (length xs)) sched)"
    using sched False
    by (intro collected_foldl [OF c rb] collected_init [OF c]) (auto simp: complete_schedule_def)
  then have "collected ?c (length (get_tasks xs ?c)) g xs {..<length (get_tasks xs ?c)}
          (foldl (handle_result pk f (get_tasks xs ?c)) (MapResult_init ?c (length xs)) sched)"
    using sched by (simp add: complete_schedule_def)
  then show ?thesis
    using collected_all [OF c] by (simp add: Pool_map_def Let_def)
qed

lemma Pool_valid:
  "valid_processes p \<Longrightarrow> \<exists>w s1. Pool p s = Inr (w, s1) \<and> 0 < w \<and>
     pools_created s1 = pools_created s + 1 \<and> workers_alive s1 = workers_alive s + w \<and>
     workers_started s1 = workers_started s + w \<and> cpu_count s1 = cpu_count s"
  by (auto simp: valid_processes_def Pool_def Let_def split: option.splits)

lemma Pool_invalid: "k < 1 \<Longrightarrow> Pool (Some k) s = Inl ValueError"
  by (simp add: Pool_def)

text \<open>
  The parallel branch does what the docstring says: for a task function that returns
  \<open>g t\<close> on every task, with everything picklable, a worker count that the pool
  accepts and every batch reporting once in any order, it returns the list of the
  results in task order, and the pool's workers are terminated.
\<close>

lemma call_parallel_returns:
  assumes "func_picklable pk"
      and "\<forall>t \<in> set tasks. task_picklable pk t \<and> f t = Inr (g t) \<and> result_picklable pk (g t)"
      and "parallelize self"
      and "valid_processes (processes self)"
      and "complete_schedule (call_batches self tasks s) sched"
  shows "\<exists>s'. call self pk f tasks sched s = (Returned (PyList (map (Some \<circ> g) tasks)), s') \<and>
           pools_created s' = pools_created s + 1 \<and> workers_alive s' = workers_alive s"
proof -
  from assms(4) obtain w s1 where p: "Pool (processes self) s = Inr (w, s1)" "0 < w"
      "pools_created s1 = pools_created s + 1" "workers_alive s1 = workers_alive s + w"
    using Pool_valid by blast
  have rb: "\<forall>b. set b \<subseteq> set tasks \<longrightarrow> run_batch pk f b = Inr (map g b)"
    using run_batch_returns [OF assms(1,2)] by blast
  have "complete_schedule (length (get_tasks tasks (map_chunksize (length tasks) w))) sched"
    using assms(5) p by (simp add: call_batches_def)
  then have "Pool_map w pk f tasks sched = Returned (map (Some \<circ> g) tasks)"
    by (rule Pool_map_returns [OF p(2) rb])
  then show ?thesis using assms(3) p by (simp add: call_def Pool_terminate_def)
qed

text \<open>
  A task function or a task that cannot be pickled makes every batch fail, so the
  parallel run of a non-empty task list raises.
\<close>

lemma run_batch_unpicklable:
  "\<not> func_picklable pk \<Longrightarrow> run_batch pk f b = Inl PicklingError"
  by (simp add: run_batch_def)

lemma all_failed_set:
  assumes inv: "all_failed e nb P m"
      and P: "finite P" "P \<subseteq> {..<nb}" "i \<notin> P" "i < nb"
  shows "all_failed e nb (insert i P) (MapResult_set i (Inl e) m)"
proof -
  have "P \<subset> {..<nb}" using P by blast
  then have "card P < card {..<nb}" by (intro psubset_card_mono) simp_all
  then have lt: "card P < nb" by simp
  then have cardi: "card (insert i P) = Suc (card P)" "Suc (card P) \<le> nb"
    using P by simp_all
  show ?thesis
    using inv cardi lt
    by (auto simp: all_failed_def MapResult_set_def Let_def split: if_splits)
qed

lemma all_failed_foldl:
  assumes rb: "\<forall>i < length bs. run_batch pk f (bs ! i) = Inl e"
  shows "all_failed e (length bs) P m \<Longrightarrow> finite P \<Longrightarrow> P \<subseteq> {..<length bs} \<Longrightarrow>
         distinct sched \<Longrightarrow> set sched \<subseteq> {..<length bs} \<Longrightarrow> set sched \<inter> P = {} \<Longrightarrow>
         all_failed e (length bs) (P \<union> set sched) (foldl (handle_result pk f bs) m sched)"
proof (induction sched arbitrary: P m)
  case Nil
  then show ?case by simp
next
  case (Cons i sched)
  have i: "i < length bs" "i \<notin> P" using Cons.prems by auto
  have "P \<subset> {..<length bs}" using i Cons.prems(3) by blast
  then have "card P < card {..<length bs}" by (intro psubset_card_mono) simp_all
  then have nr: "\<not> mr_ready m" using Cons.prems(1) by (simp add: all_failed_def)
  have step: "handle_result pk f bs m i = MapResult_set i (Inl e) m"
    using i nr rb by (simp add: handle_result_def)
  have inv': "all_failed e (length bs) (insert i P) (handle_result pk f bs m i)"
    unfolding step
    by (rule all_failed_set [OF Cons.prems(1) Cons.prems(2) Cons.prems(3) i(2) i(1)])
  have "all_failed e (length bs) (insert i P \<union> set sched)
          (foldl (handle_result pk f bs) (handle_result pk f bs m i) sched)"
    using Cons.prems i by (intro Cons.IH [OF inv']) auto
  then show ?case by simp
qed

lemma Pool_map_unpicklable:
  assumes w: "0 < w" and ne: "xs \<noteq> []" and np: "\<not> func_picklable pk"
      and sched: "complete_schedule (length (get_tasks xs (map_chunksize (length xs) w))) sched"
  shows "Pool_map w pk f xs sched = Raised PicklingError"
proof -
  let ?c = "map_chunksize (length xs) w"
  let ?bs = "get_tasks xs ?c"
  have c: "0 < ?c" using ne w by (intro map_chunksize_pos) simp_all
  have nb: "0 < length ?bs"
    using batch_index_less [OF c, of 0 "length xs"] ne get_tasks_length [OF c, of xs] by simp
  have init: "all_failed PicklingError (length ?bs) {} (MapResult_init ?c (length xs))"
    using c nb get_tasks_length [OF c, of xs] by (simp add: all_failed_def MapResult_init_def)
  have rb: "\<forall>i < length ?bs. run_batch pk f (?bs ! i) = Inl PicklingError"
    using np by (simp add: run_batch_unpicklable)
  have "all_failed PicklingError (length ?bs) ({} \<union> set sched)
          (foldl (handle_result pk f ?bs) (MapResult_init ?c (length xs)) sched)"
    using sched by (intro all_failed_foldl [OF rb] init) (auto simp: complete_schedule_def)
  then have "all_failed PicklingError (length ?bs) {..<length ?bs}
          (foldl (handle_result pk f ?bs) (MapResult_init ?c (length xs)) sched)"
    using sched by (simp add: complete_schedule_def)
  moreover have "{..<length ?bs} \<noteq> {}" using nb by auto
  ultimately show ?thesis
    by (simp add: Pool_map_def Let_def all_failed_def MapResult_get_def)
qed

lemma call_parallel_unpicklable:
  assumes "tasks \<noteq> []" and "\<not> func_picklable pk" and "parallelize self"
      and "valid_processes (processes self)"
      and "complete_schedule (call_batches self tasks s) sched"
  shows "fst (call self pk f tasks sched s) = Raised PicklingError"
proof -
  from assms(4) obtain w s1 where p: "Pool (processes self) s = Inr (w, s1)" "0 < w"
    using Pool_valid by blast
  have "complete_schedule (length (get_tasks tasks (map_chunksize (length tasks) w))) sched"
    using assms(5) p by (simp add: call_batches_def)
  then have "Pool_map w pk f tasks sched = Raised PicklingError"
    by (rule Pool_map_unpicklable [OF p(2) assms(1,2)])
  then show ?thesis using assms(3) p by (simp add: call_def)
qed

text \<open>
  The sequential branch applies \<^verbatim>\<open>f\<close> to nothing: it returns the \<^verbatim>\<open>map\<close> object,
  whatever \<^verbatim>\<open>f\<close> does on the tasks, and leaves the process table as it is.
\<close>

lemma call_sequential_returns:
  "\<not> parallelize self \<Longrightarrow> call self pk f tasks sched s = (Returned (PyMap f tasks), s)"
  by (simp add: call_def)

lemma elements_PyMap_returns:
  "\<forall>t \<in> set tasks. f t = Inr (g t) \<Longrightarrow> elements (PyMap f tasks) = Inr (map (Some \<circ> g) tasks)"
  using mapstar_returns [of tasks f g] by simp

subsection \<open>Order preservation\<close>

lemma call_parallel_example:
  "call \<lparr>parallelize = True, processes = Some 2\<rparr> all_picklable square [5, 3, 8] [2, 0, 1]
     \<lparr>cpu_count = Some 4, pools_created = 0, workers_started = 0, workers_alive = 0\<rparr> =
   (Returned (PyList [Some 25, Some 9, Some 64]),
    \<lparr>cpu_count = Some 4, pools_created = 1, workers_started = 2, workers_alive = 0\<rparr>)"
proof -
  let ?self = "\<lparr>parallelize = True, processes = Some 2\<rparr>"
  let ?s = "\<lparr>cpu_count = Some 4, pools_created = 0, workers_started = 0, workers_alive = 0\<rparr>"
  have p: "Pool (Some 2) ?s =
      Inr (2, \<lparr>cpu_count = Some 4, pools_created = 1, workers_started = 2, workers_alive = 2\<rparr>)"
    by (simp add: Pool_def)
  have nb: "length (get_tasks [5, 3, 8 :: int] (map_chunksize (length [5, 3, 8 :: int]) 2)) = 3"
    by code_simp
  have rb: "\<forall>b. set b \<subseteq> set [5, 3, 8 :: int] \<longrightarrow>
      run_batch all_picklable square b = Inr (map (\<lambda>t. t * t) b)"
    by (intro allI impI run_batch_returns [where xs = "[5, 3, 8]"])
       (simp_all add: all_picklable_def square_def)
  have "complete_schedule
      (length (get_tasks [5, 3, 8 :: int] (map_chunksize (length [5, 3, 8 :: int]) 2))) [2, 0, 1]"
    unfolding nb by (auto simp: complete_schedule_def)
  then have "Pool_map 2 all_picklable square [5, 3, 8] [2, 0, 1] =
      Returned (map (Some \<circ> (\<lambda>t. t * t)) [5, 3, 8])"
    by (intro Pool_map_returns rb) simp_all
  then show ?thesis using p by (simp add: call_def Pool_terminate_def)
qed

text \<open>
  Claim C1 at \<^verbatim>\<open>Parallelizer(parallelize=False)(f, [5, 3, 8])\<close>. The docstring of
  \<^verbatim>\<open>__call__\<close> says that it returns the list of the results of each call to \<^verbatim>\<open>f\<close>, and
  the parallel branch returns that list. The sequential branch returns the \<^verbatim>\<open>map\<close>
  object instead: it has no length and no item at an index, and \<^verbatim>\<open>f\<close> has been applied
  to no task when the call returns, for the call returns the same way for a function
  that raises on every task.
\<close>

theorem call_sequential_returns_map_object:
  "call \<lparr>parallelize = False, processes = Some 2\<rparr> all_picklable square [5, 3, 8] []
     \<lparr>cpu_count = Some 4, pools_created = 0, workers_started = 0, workers_alive = 0\<rparr> =
   (Returned (PyMap square [5, 3, 8]),
    \<lparr>cpu_count = Some 4, pools_created = 0, workers_started = 0, workers_alive = 0\<rparr>) \<and>
   py_len (PyMap square [5, 3, 8]) = Inl TypeError \<and>
   py_getitem (PyMap square [5, 3, 8]) 0 = Inl TypeError \<and>
   call \<lparr>parallelize = False, processes = Some 2\<rparr> all_picklable always_raises [5, 3, 8] []
     \<lparr>cpu_count = Some 4, pools_created = 0, workers_started = 0, workers_alive = 0\<rparr> =
   (Returned (PyMap always_raises [5, 3, 8]),
    \<lparr>cpu_count = Some 4, pools_created = 0, workers_started = 0, workers_alive = 0\<rparr>) \<and>
   fst (call \<lparr>parallelize = True, processes = Some 2\<rparr> all_picklable square [5, 3, 8] [2, 0, 1]
     \<lparr>cpu_count = Some 4, pools_created = 0, workers_started = 0, workers_alive = 0\<rparr>) =
   Returned (PyList [Some 25, Some 9, Some 64]) \<and>
   py_len (PyList [Some 25, Some 9, Some (64 :: int)] :: (int, int) pyseq) = Inr 3 \<and>
   py_getitem (PyList [Some 25, Some 9, Some (64 :: int)] :: (int, int) pyseq) 0 = Inr (Some 25)"
proof -
  let ?s = "\<lparr>cpu_count = Some 4, pools_created = 0, workers_started = 0, workers_alive = 0\<rparr>"
  have a: "call \<lparr>parallelize = False, processes = Some 2\<rparr> all_picklable square [5, 3, 8] [] ?s =
      (Returned (PyMap square [5, 3, 8]), ?s)"
    by (rule call_sequential_returns) simp
  have b: "py_len (PyMap square [5, 3, 8]) = Inl TypeError"
      "py_getitem (PyMap square [5, 3, 8]) 0 = Inl TypeError"
    by simp_all
  have c: "call \<lparr>parallelize = False, processes = Some 2\<rparr> all_picklable always_raises
      [5, 3, 8] [] ?s = (Returned (PyMap always_raises [5, 3, 8]), ?s)"
    by (rule call_sequential_returns) simp
  have d: "fst (call \<lparr>parallelize = True, processes = Some 2\<rparr> all_picklable square [5, 3, 8]
      [2, 0, 1] ?s) = Returned (PyList [Some 25, Some 9, Some 64])"
    by (simp only: call_parallel_example fst_conv)
  have e: "py_len (PyList [Some 25, Some 9, Some (64 :: int)] :: (int, int) pyseq) = Inr 3"
      "py_getitem (PyList [Some 25, Some 9, Some (64 :: int)] :: (int, int) pyseq) 0 = Inr (Some 25)"
    by simp_all
  from a b c d e show ?thesis by blast
qed

subsection \<open>Mode equivalence\<close>

text \<open>
  Claim C2 at \<^verbatim>\<open>f\<close> and \<^verbatim>\<open>[5, 3, 8]\<close>, run with \<^verbatim>\<open>parallelize=True\<close> and with
  \<^verbatim>\<open>parallelize=False\<close> by the same runner otherwise. The parallel run returns the list
  \<^verbatim>\<open>[25, 9, 64]\<close>; the sequential run returns a \<^verbatim>\<open>map\<close> object. The two are not
  the same object and do not compare equal, and one has a length while the other has
  none. Only iterating over the \<^verbatim>\<open>map\<close> object yields the elements of the list.
\<close>

theorem call_modes_return_different_objects:
  "fst (call (\<lparr>parallelize = True, processes = Some 2\<rparr>\<lparr>parallelize := True\<rparr>) all_picklable
          square [5, 3, 8] [2, 0, 1]
          \<lparr>cpu_count = Some 4, pools_created = 0, workers_started = 0, workers_alive = 0\<rparr>) =
     Returned (PyList [Some 25, Some 9, Some 64]) \<and>
   fst (call (\<lparr>parallelize = True, processes = Some 2\<rparr>\<lparr>parallelize := False\<rparr>) all_picklable
          square [5, 3, 8] [2, 0, 1]
          \<lparr>cpu_count = Some 4, pools_created = 0, workers_started = 0, workers_alive = 0\<rparr>) =
     Returned (PyMap square [5, 3, 8]) \<and>
   PyList [Some 25, Some 9, Some 64] \<noteq> PyMap square [5, 3, 8] \<and>
   \<not> py_eq (PyList [Some 25, Some 9, Some 64]) (PyMap square [5, 3, 8]) \<and>
   py_len (PyList [Some 25, Some 9, Some (64 :: int)] :: (int, int) pyseq) = Inr 3 \<and>
   py_len (PyMap square [5, 3, 8]) = Inl TypeError \<and>
   elements (PyMap square [5, 3, 8]) = Inr [Some 25, Some 9, Some 64]"
proof -
  let ?s = "\<lparr>cpu_count = Some 4, pools_created = 0, workers_started = 0, workers_alive = 0\<rparr>"
  have par: "\<lparr>parallelize = True, processes = Some 2\<rparr>\<lparr>parallelize := True\<rparr> =
      \<lparr>parallelize = True, processes = Some 2\<rparr>"
    by simp
  have a: "fst (call (\<lparr>parallelize = True, processes = Some 2\<rparr>\<lparr>parallelize := True\<rparr>)
      all_picklable square [5, 3, 8] [2, 0, 1] ?s) = Returned (PyList [Some 25, Some 9, Some 64])"
    by (simp only: par call_parallel_example fst_conv)
  have b: "fst (call (\<lparr>parallelize = True, processes = Some 2\<rparr>\<lparr>parallelize := False\<rparr>)
      all_picklable square [5, 3, 8] [2, 0, 1] ?s) = Returned (PyMap square [5, 3, 8])"
    by (simp add: call_sequential_returns)
  have c: "PyList [Some 25, Some 9, Some 64] \<noteq> PyMap square [5, 3, 8]"
      "\<not> py_eq (PyList [Some 25, Some 9, Some 64]) (PyMap square [5, 3, 8])"
      "py_len (PyList [Some 25, Some 9, Some (64 :: int)] :: (int, int) pyseq) = Inr 3"
      "py_len (PyMap square [5, 3, 8]) = Inl TypeError"
      "elements (PyMap square [5, 3, 8]) = Inr [Some 25, Some 9, Some 64]"
    by (simp_all add: square_def)
  from a b c show ?thesis by blast
qed

subsection \<open>Empty input\<close>

lemma foldl_handle_result_Nil: "foldl (handle_result pk f []) m sched = m"
  by (induction sched) (simp_all add: handle_result_def)

lemma Pool_map_Nil: "Pool_map w pk f [] sched = Returned []"
  by (simp add: Pool_map_def map_chunksize_def get_tasks_Nil foldl_handle_result_Nil
        MapResult_init_def MapResult_get_def)


text \<open>
  Claim C3, as the code has it. On an empty task list the sequential mode returns an
  object with no elements and leaves the process table as it was. The parallel mode,
  for a worker count that the pool accepts and whatever the schedule and whatever can
  be pickled (nothing is sent to a worker), also returns an empty list, but only after
  it has created one pool, whose workers it has terminated again when it returns.
\<close>

theorem call_empty:
  "(\<not> parallelize self \<longrightarrow>
      call self pk f [] sched s = (Returned (PyMap f []), s) \<and> elements (PyMap f []) = Inr []) \<and>
   (parallelize self \<and> valid_processes (processes self) \<longrightarrow>
      (\<exists>s'. call self pk f [] sched s = (Returned (PyList []), s') \<and>
            pools_created s' = pools_created s + 1 \<and>
            workers_started s < workers_started s' \<and>
            workers_alive s' = workers_alive s))"
proof -
  note m = Pool_map_Nil [of _ pk f sched]
  show ?thesis
  proof (intro conjI impI)
    assume "parallelize self \<and> valid_processes (processes self)"
    then obtain w s1 where p: "Pool (processes self) s = Inr (w, s1)" "0 < w"
        "pools_created s1 = pools_created s + 1" "workers_alive s1 = workers_alive s + w"
        "workers_started s1 = workers_started s + w" and par: "parallelize self"
      using Pool_valid by blast
    then show "\<exists>s'. call self pk f [] sched s = (Returned (PyList []), s') \<and>
            pools_created s' = pools_created s + 1 \<and>
            workers_started s < workers_started s' \<and>
            workers_alive s' = workers_alive s"
      using m by (simp add: call_def Pool_terminate_def)
  qed (simp_all add: call_def)
qed

theorem call_empty_witness:
  "call \<lparr>parallelize = False, processes = Some 3\<rparr> all_picklable (Inr :: nat \<Rightarrow> exn + nat) [] []
     \<lparr>cpu_count = None, pools_created = 0, workers_started = 0, workers_alive = 0\<rparr>
   = (Returned (PyMap Inr []),
      \<lparr>cpu_count = None, pools_created = 0, workers_started = 0, workers_alive = 0\<rparr>) \<and>
   elements (PyMap (Inr :: nat \<Rightarrow> exn + nat) []) = Inr [] \<and>
   parallelize \<lparr>parallelize = True, processes = Some 3\<rparr> \<and>
   valid_processes (processes \<lparr>parallelize = True, processes = Some 3\<rparr>) \<and>
   (\<exists>s'. call \<lparr>parallelize = True, processes = Some 3\<rparr> all_picklable (Inr :: nat \<Rightarrow> exn + nat) [] []
           \<lparr>cpu_count = None, pools_created = 0, workers_started = 0, workers_alive = 0\<rparr>
         = (Returned (PyList []), s') \<and>
         pools_created s' = 1 \<and> 0 < workers_started s' \<and> workers_alive s' = 0)"
  using call_empty [where self = "\<lparr>parallelize = True, processes = Some 3\<rparr>"
      and pk = all_picklable and f = "Inr :: nat \<Rightarrow> exn + nat" and sched = "[]"
      and s = "\<lparr>cpu_count = None, pools_created = 0, workers_started = 0, workers_alive = 0\<rparr>"]
    call_empty [where self = "\<lparr>parallelize = False, processes = Some 3\<rparr>"
      and pk = all_picklable and f = "Inr :: nat \<Rightarrow> exn + nat" and sched = "[]"
      and s = "\<lparr>cpu_count = None, pools_created = 0, workers_started = 0, workers_alive = 0\<rparr>"]
  by (simp add: valid_processes_def)

text \<open>
  The claim as the specification states it fails in parallel mode: the run on no tasks
  creates a pool and starts its two workers.
\<close>

theorem call_empty_counterexample:
  "pools_created (snd (call \<lparr>parallelize = True, processes = Some 2\<rparr>
      all_picklable (Inr :: nat \<Rightarrow> exn + nat) [] []
      \<lparr>cpu_count = Some 4, pools_created = 0, workers_started = 0, workers_alive = 0\<rparr>)) = 1 \<and>
   workers_started (snd (call \<lparr>parallelize = True, processes = Some 2\<rparr>
      all_picklable (Inr :: nat \<Rightarrow> exn + nat) [] []
      \<lparr>cpu_count = Some 4, pools_created = 0, workers_started = 0, workers_alive = 0\<rparr>)) = 2"
  by (simp add: call_def Pool_def Pool_terminate_def Pool_map_Nil)

subsection \<open>Construction and the worker count\<close>

text \<open>
  Claim C7, as the code has it. \<^verbatim>\<open>__init__\<close> stores both arguments as they are and
  raises nothing; it does not clamp. A parallel run of a runner built with a worker
  count below 1 raises \<^verbatim>\<open>ValueError\<close> when it creates the pool, for every task function
  and task list, picklable or not, and leaves the process table as it was.
\<close>

theorem Parallelizer_init_stores:
  "parallelize (Parallelizer_init par procs) = par \<and>
   processes (Parallelizer_init par procs) = procs \<and>
   (k < 1 \<longrightarrow> call (Parallelizer_init True (Some k)) pk f tasks sched s = (Raised ValueError, s))"
  by (simp add: Parallelizer_init_def call_def Pool_invalid)

theorem Parallelizer_init_stores_witness:
  "(-2 :: int) < 1 \<and>
   parallelize (Parallelizer_init False (Some 7)) = False \<and>
   processes (Parallelizer_init False (Some 7)) = Some 7 \<and>
   call (Parallelizer_init True (Some (-2))) all_picklable (Inr :: nat \<Rightarrow> exn + nat) [4, 5] [0]
     \<lparr>cpu_count = Some 8, pools_created = 0, workers_started = 0, workers_alive = 0\<rparr>
   = (Raised ValueError,
      \<lparr>cpu_count = Some 8, pools_created = 0, workers_started = 0, workers_alive = 0\<rparr>)"
  using Parallelizer_init_stores [where par = False and procs = "Some 7" and k = "-2"
      and pk = all_picklable and f = "Inr :: nat \<Rightarrow> exn + nat" and tasks = "[4, 5]"
      and sched = "[0]"
      and s = "\<lparr>cpu_count = Some 8, pools_created = 0, workers_started = 0, workers_alive = 0\<rparr>"]
  by simp

text \<open>
  The claim as the specification states it fails: a worker count of 0 is stored as 0,
  and the parallel run that follows raises.
\<close>

theorem Parallelizer_init_clamp_counterexample:
  "processes (Parallelizer_init True (Some 0)) = Some 0 \<and>
   fst (call (Parallelizer_init True (Some 0)) all_picklable (Inr :: nat \<Rightarrow> exn + nat) [1] [0]
     \<lparr>cpu_count = Some 4, pools_created = 0, workers_started = 0, workers_alive = 0\<rparr>)
   = Raised ValueError"
  by (simp add: Parallelizer_init_def call_def Pool_def)

section \<open>The metaclass keeps one instance per class\<close>

lemma registry_ok_init: "registry_ok interp_init"
  by (simp add: registry_ok_def interp_init_def instances_of_def)

lemma instances_of_snoc:
  "instances_of (st\<lparr>objects := objects st @ [(cls, v)]\<rparr>) c =
     instances_of st c @ (if c = cls then [length (objects st)] else [])"
proof -
  have "filter (\<lambda>r. fst ((objects st @ [(cls, v)]) ! r) = c) [0..<length (objects st)] =
        filter (\<lambda>r. fst (objects st ! r) = c) [0..<length (objects st)]"
    by (rule filter_cong) (simp_all add: nth_append)
  then show ?thesis by (simp add: instances_of_def)
qed

lemma instances_of_constructed [simp]:
  "instances_of (st\<lparr>constructed := l\<rparr>) c = instances_of st c"
  by (simp add: instances_of_def)

lemma instances_of_instances [simp]:
  "instances_of (st\<lparr>instances := l\<rparr>) c = instances_of st c"
  by (simp add: instances_of_def)

lemma Singleton_call_registered:
  "instances st cls = Some r \<Longrightarrow> Singleton_call ctor cls args st = (Inr r, st)"
  by (simp add: Singleton_call_def)

lemma Singleton_call_first:
  "instances st cls = None \<Longrightarrow> ctor cls args = Inr v \<Longrightarrow>
   Singleton_call ctor cls args st =
     (Inr (length (objects st)),
      st\<lparr>constructed := constructed st @ [(cls, args)],
         objects := objects st @ [(cls, v)],
         instances := (instances st)(cls \<mapsto> length (objects st))\<rparr>)"
  by (simp add: Singleton_call_def type_call_def)

lemma Singleton_call_raises:
  "instances st cls = None \<Longrightarrow> ctor cls args = Inl e \<Longrightarrow>
   Singleton_call ctor cls args st = (Inl e, st\<lparr>constructed := constructed st @ [(cls, args)]\<rparr>)"
  by (simp add: Singleton_call_def type_call_def)

lemma Singleton_call_cases:
  obtains (registered) r where "instances st cls = Some r"
      "Singleton_call ctor cls args st = (Inr r, st)"
  | (first) v where "instances st cls = None" "ctor cls args = Inr v"
      "Singleton_call ctor cls args st =
        (Inr (length (objects st)),
         st\<lparr>constructed := constructed st @ [(cls, args)],
            objects := objects st @ [(cls, v)],
            instances := (instances st)(cls \<mapsto> length (objects st))\<rparr>)"
  | (raises) e where "instances st cls = None" "ctor cls args = Inl e"
      "Singleton_call ctor cls args st =
        (Inl e, st\<lparr>constructed := constructed st @ [(cls, args)]\<rparr>)"
proof (cases "instances st cls")
  case None
  show ?thesis
  proof (cases "ctor cls args")
    case (Inl e)
    show ?thesis
      by (rule raises [OF None Inl Singleton_call_raises [of st cls ctor args e, OF None Inl]])
  next
    case (Inr v)
    show ?thesis
      by (rule first [OF None Inr Singleton_call_first [of st cls ctor args v, OF None Inr]])
  qed
next
  case (Some r)
  show ?thesis
    by (rule registered [OF Some Singleton_call_registered [of st cls r ctor args, OF Some]])
qed

lemma Singleton_call_registry_ok:
  assumes "registry_ok st"
  shows "registry_ok (snd (Singleton_call ctor cls args st))"
proof (cases rule: Singleton_call_cases [of st cls ctor args])
  case (registered r)
  then show ?thesis using assms by simp
next
  case (first v)
  have "instances_of st cls = []" using assms first(1) by (simp add: registry_ok_def)
  then show ?thesis
    using assms unfolding first(3) registry_ok_def
    by (simp add: instances_of_snoc [of "st\<lparr>constructed := constructed st @ [(cls, args)]\<rparr>", simplified])
next
  case (raises e)
  then show ?thesis using assms by (simp add: registry_ok_def)
qed

lemma Singleton_call_keeps:
  "instances st c = Some r \<Longrightarrow> instances (snd (Singleton_call ctor cls args st)) c = Some r"
  by (cases rule: Singleton_call_cases [of st cls ctor args]) auto

lemma Singleton_call_returned:
  "Singleton_call ctor cls args st = (Inr r, st') \<Longrightarrow> instances st' cls = Some r"
  by (cases rule: Singleton_call_cases [of st cls ctor args]) auto

lemma instantiate_all_registry_ok:
  "registry_ok st \<Longrightarrow> registry_ok (instantiate_all ctor st calls)"
  by (induction ctor st calls rule: instantiate_all.induct)
     (simp_all add: Singleton_call_registry_ok)

lemma instantiate_all_keeps:
  "instances st c = Some r \<Longrightarrow> instances (instantiate_all ctor st calls) c = Some r"
  by (induction ctor st calls rule: instantiate_all.induct)
     (simp_all add: Singleton_call_keeps)

lemma registry_ok_at_most_one: "registry_ok st \<Longrightarrow> length (instances_of st cls) \<le> 1"
  by (simp add: registry_ok_def split: option.splits)

text \<open>
  Claim C9. In every state that a process reaches from the start by instantiating
  classes through the metaclass, the heap holds at most one object of each class. An
  instantiation of a class that is not registered yet, whose constructor returns,
  invokes the constructor once, puts the new object on the heap and registers it. Once
  an instantiation of a class has returned a reference, every later instantiation of
  that class, whatever its arguments and whatever was instantiated in between, returns
  the same reference and leaves the state as it is: no constructor is invoked and no
  object is created.
\<close>

theorem Singleton_single_instance:
  "length (instances_of (instantiate_all ctor interp_init calls) cls) \<le> 1 \<and>
   (instances st cls = None \<and> ctor cls args = Inr v \<longrightarrow>
      Singleton_call ctor cls args st =
        (Inr (length (objects st)),
         st\<lparr>constructed := constructed st @ [(cls, args)],
            objects := objects st @ [(cls, v)],
            instances := (instances st)(cls \<mapsto> length (objects st))\<rparr>)) \<and>
   (Singleton_call ctor cls args st = (Inr r, st') \<longrightarrow>
      Singleton_call ctor cls args' (instantiate_all ctor st' calls') =
        (Inr r, instantiate_all ctor st' calls'))"
proof (intro conjI impI)
  show "length (instances_of (instantiate_all ctor interp_init calls) cls) \<le> 1"
    by (intro registry_ok_at_most_one instantiate_all_registry_ok registry_ok_init)
next
  assume "instances st cls = None \<and> ctor cls args = Inr v"
  then show "Singleton_call ctor cls args st =
        (Inr (length (objects st)),
         st\<lparr>constructed := constructed st @ [(cls, args)],
            objects := objects st @ [(cls, v)],
            instances := (instances st)(cls \<mapsto> length (objects st))\<rparr>)"
    by (simp add: Singleton_call_first)
next
  assume "Singleton_call ctor cls args st = (Inr r, st')"
  then have "instances st' cls = Some r" by (rule Singleton_call_returned)
  then have "instances (instantiate_all ctor st' calls') cls = Some r"
    by (rule instantiate_all_keeps)
  then show "Singleton_call ctor cls args' (instantiate_all ctor st' calls') =
        (Inr r, instantiate_all ctor st' calls')"
    by (rule Singleton_call_registered)
qed

theorem Singleton_single_instance_witness:
  "instances (interp_init :: (string, nat, nat) interp) ''A'' = None \<and>
   example_ctor ''A'' 5 = Inr 5 \<and>
   Singleton_call example_ctor ''A'' 5 interp_init =
     (Inr 0, \<lparr>objects = [(''A'', 5)], instances = [''A'' \<mapsto> 0], constructed = [(''A'', 5)]\<rparr>) \<and>
   Singleton_call example_ctor ''A'' 9
     (instantiate_all example_ctor
        \<lparr>objects = [(''A'', 5)], instances = [''A'' \<mapsto> 0], constructed = [(''A'', 5)]\<rparr>
        [(''B'', 3), (''A'', 0)]) =
     (Inr 0,
      instantiate_all example_ctor
        \<lparr>objects = [(''A'', 5)], instances = [''A'' \<mapsto> 0], constructed = [(''A'', 5)]\<rparr>
        [(''B'', 3), (''A'', 0)]) \<and>
   length (instances_of
     (instantiate_all example_ctor interp_init [(''A'', 5), (''B'', 3), (''A'', 9)]) ''A'') \<le> 1"
proof -
  have a: "instances (interp_init :: (string, nat, nat) interp) ''A'' = None"
    by (simp add: interp_init_def)
  have b: "example_ctor ''A'' 5 = Inr 5"
    by (simp add: example_ctor_def)
  have c: "interp_init\<lparr>constructed := constructed interp_init @ [(''A'', 5)],
             objects := objects interp_init @ [(''A'', 5)],
             instances := (instances interp_init)(''A'' \<mapsto> length (objects interp_init))\<rparr> =
           (\<lparr>objects = [(''A'', 5)], instances = [''A'' \<mapsto> 0], constructed = [(''A'', 5)]\<rparr>
              :: (string, nat, nat) interp)"
    by (simp add: interp_init_def)
  note T = Singleton_single_instance [of example_ctor "[(''A'', 5), (''B'', 3), (''A'', 9)]" "''A''"
        interp_init 5 5 0
        "\<lparr>objects = [(''A'', 5)], instances = [''A'' \<mapsto> 0], constructed = [(''A'', 5)]\<rparr>"
        9 "[(''B'', 3), (''A'', 0)]"]
  have t1: "length (instances_of
     (instantiate_all example_ctor interp_init [(''A'', 5), (''B'', 3), (''A'', 9)]) ''A'') \<le> 1"
    by (rule T [THEN conjunct1])
  have t2: "Singleton_call example_ctor ''A'' 5 interp_init =
     (Inr 0, \<lparr>objects = [(''A'', 5)], instances = [''A'' \<mapsto> 0], constructed = [(''A'', 5)]\<rparr>)"
    using T [THEN conjunct2, THEN conjunct1] a b unfolding c by (simp add: interp_init_def)
  have t3: "Singleton_call example_ctor ''A'' 9
     (instantiate_all example_ctor
        \<lparr>objects = [(''A'', 5)], instances = [''A'' \<mapsto> 0], constructed = [(''A'', 5)]\<rparr>
        [(''B'', 3), (''A'', 0)]) =
     (Inr 0,
      instantiate_all example_ctor
        \<lparr>objects = [(''A'', 5)], instances = [''A'' \<mapsto> 0], constructed = [(''A'', 5)]\<rparr>
        [(''B'', 3), (''A'', 0)])"
    using T [THEN conjunct2, THEN conjunct2] t2 by blast
  show ?thesis using a b t1 t2 t3 by blast
qed

section \<open>Creating directories is idempotent\<close>

lemma lookup_Nil [simp]: "lookup fs [] = Some Dir"
  by (simp add: lookup_def)

lemma os_mkdir_cases:
  obtains (made) "os_mkdir fs p = Inr (fs\<lparr>nodes := (nodes fs)(p \<mapsto> Dir)\<rparr>)"
      "p \<noteq> []" "lookup fs p = None" "lookup fs (butlast p) = Some Dir"
      "butlast p \<notin> protected fs"
  | (failed) e where "os_mkdir fs p = Inl e"
  by (cases "os_mkdir fs p")
     (auto simp: os_mkdir_def split: if_splits option.splits node.splits)

lemma mkdir_leaf_cases:
  obtains (made) "mkdir_leaf fs p True = (None, fs\<lparr>nodes := (nodes fs)(p \<mapsto> Dir)\<rparr>)"
      "p \<noteq> []" "lookup fs p = None" "lookup fs (butlast p) = Some Dir"
      "butlast p \<notin> protected fs"
  | (present) "mkdir_leaf fs p True = (None, fs)" "lookup fs p = Some Dir"
  | (failed) e where "mkdir_leaf fs p True = (Some e, fs)" "lookup fs p \<noteq> Some Dir"
proof (cases rule: os_mkdir_cases [of fs p])
  case made
  then show ?thesis using that(1) by (simp add: mkdir_leaf_def)
next
  case (failed e)
  then show ?thesis using that(2,3) by (cases "lookup fs p = Some Dir") (simp_all add: mkdir_leaf_def os_path_isdir_def)
qed

lemma os_makedirs_Nil: "os_makedirs fs [] True = (None, fs)"
  by (subst os_makedirs.simps) (simp add: mkdir_leaf_def os_mkdir_def os_path_isdir_def)

lemma os_makedirs_head_exists:
  "p \<noteq> [] \<Longrightarrow> os_path_exists fs (butlast p) \<Longrightarrow> os_makedirs fs p ok = mkdir_leaf fs p ok"
  by (subst os_makedirs.simps) simp

lemma os_makedirs_head_missing:
  "p \<noteq> [] \<Longrightarrow> \<not> os_path_exists fs (butlast p) \<Longrightarrow>
   os_makedirs fs p ok =
     (case os_makedirs fs (butlast p) ok of
        (Some FileExistsError, fs') \<Rightarrow> mkdir_leaf fs' p ok
      | (Some e, fs') \<Rightarrow> (Some e, fs')
      | (None, fs') \<Rightarrow> mkdir_leaf fs' p ok)"
  by (subst os_makedirs.simps) (auto split: prod.splits option.splits exn.splits)

lemma mkdir_leaf_frame:
  "q \<noteq> p \<Longrightarrow> nodes (snd (mkdir_leaf fs p True)) q = nodes fs q"
  by (cases rule: mkdir_leaf_cases [of fs p]) simp_all

lemma mkdir_leaf_protected:
  "protected (snd (mkdir_leaf fs p True)) = protected fs"
  by (cases rule: mkdir_leaf_cases [of fs p]) simp_all

lemma os_makedirs_frame:
  "length p < length q \<Longrightarrow> nodes (snd (os_makedirs fs p True)) q = nodes fs q"
proof (induction "length p" arbitrary: p fs rule: less_induct)
  case less
  show ?case
  proof (cases "p = []")
    case True
    then show ?thesis by (simp add: os_makedirs_Nil)
  next
    case False
    then have lh: "length (butlast p) < length p" by simp
    have ne: "q \<noteq> p" using less.prems by auto
    show ?thesis
    proof (cases "os_path_exists fs (butlast p)")
      case True
      then show ?thesis
        using False ne by (simp add: os_makedirs_head_exists mkdir_leaf_frame)
    next
      case miss: False
      obtain e1 fs1 where r: "os_makedirs fs (butlast p) True = (e1, fs1)"
        by (cases "os_makedirs fs (butlast p) True")
      have "nodes fs1 q = nodes fs q"
        using less.hyps [OF lh, of fs] less.prems r by simp
      then show ?thesis
        using False miss r ne mkdir_leaf_frame [of q p fs1]
        by (auto simp: os_makedirs_head_missing split: option.splits exn.splits)
    qed
  qed
qed

lemma os_makedirs_protected:
  "protected (snd (os_makedirs fs p True)) = protected fs"
proof (induction "length p" arbitrary: p fs rule: less_induct)
  case less
  show ?case
  proof (cases "p = []")
    case True
    then show ?thesis by (simp add: os_makedirs_Nil)
  next
    case False
    then have lh: "length (butlast p) < length p" by simp
    show ?thesis
    proof (cases "os_path_exists fs (butlast p)")
      case True
      then show ?thesis
        using False by (simp add: os_makedirs_head_exists mkdir_leaf_protected)
    next
      case miss: False
      obtain e1 fs1 where r: "os_makedirs fs (butlast p) True = (e1, fs1)"
        by (cases "os_makedirs fs (butlast p) True")
      have "protected fs1 = protected fs"
        using less.hyps [OF lh, of fs] r by simp
      then show ?thesis
        using False miss r mkdir_leaf_protected [of fs1 p]
        by (auto simp: os_makedirs_head_missing split: option.splits exn.splits)
    qed
  qed
qed

lemma lookup_nodes: "p \<noteq> [] \<Longrightarrow> lookup fs p = nodes fs p"
  by (simp add: lookup_def)

lemma os_makedirs_shape:
  assumes "p \<noteq> []"
  obtains (leaf) fsh where "os_makedirs fs p True = mkdir_leaf fsh p True"
      "nodes fsh p = nodes fs p"
  | (head_failed) e fsh where "os_makedirs fs p True = (Some e, fsh)"
      "nodes fsh p = nodes fs p"
proof (cases "os_path_exists fs (butlast p)")
  case True
  then show ?thesis using leaf [of fs] assms by (simp add: os_makedirs_head_exists)
next
  case False
  obtain e1 fs1 where r: "os_makedirs fs (butlast p) True = (e1, fs1)"
    by (cases "os_makedirs fs (butlast p) True")
  have "length (butlast p) < length p" using assms by simp
  then have fr: "nodes fs1 p = nodes fs p"
    using os_makedirs_frame [of "butlast p" p fs] r by simp
  show ?thesis
  proof (cases "e1 = None \<or> e1 = Some FileExistsError")
    case True
    then have "os_makedirs fs p True = mkdir_leaf fs1 p True"
      using assms False r by (auto simp: os_makedirs_head_missing)
    then show ?thesis using leaf fr by blast
  next
    case no: False
    then obtain e where "e1 = Some e" "e \<noteq> FileExistsError" by auto
    then have "os_makedirs fs p True = (Some e, fs1)"
      using assms False r by (auto simp: os_makedirs_head_missing split: exn.splits)
    then show ?thesis using head_failed fr by blast
  qed
qed

lemma os_makedirs_failed_lookup:
  assumes "os_makedirs fs p True = (Some e, fs1)"
  shows "lookup fs1 p = lookup fs p"
proof (cases "p = []")
  case True
  then show ?thesis by simp
next
  case False
  from False show ?thesis
  proof (cases rule: os_makedirs_shape [where fs = fs])
    case (leaf fsh)
    then have "mkdir_leaf fsh p True = (Some e, fs1)" using assms by simp
    then have "fs1 = fsh"
      by (cases rule: mkdir_leaf_cases [of fsh p]) simp_all
    then show ?thesis using leaf(2) False by (simp add: lookup_nodes)
  next
    case (head_failed e' fsh)
    then show ?thesis using assms False by (simp add: lookup_nodes)
  qed
qed

lemma os_makedirs_returned_isdir:
  assumes "os_makedirs fs p True = (None, fs1)"
  shows "lookup fs1 p = Some Dir"
proof (cases "p = []")
  case True
  then show ?thesis by simp
next
  case False
  from False show ?thesis
  proof (cases rule: os_makedirs_shape [where fs = fs])
    case (leaf fsh)
    then have m: "mkdir_leaf fsh p True = (None, fs1)" using assms by simp
    show ?thesis
      using m False by (cases rule: mkdir_leaf_cases [of fsh p]) (auto simp: lookup_nodes)
  next
    case (head_failed e' fsh)
    then show ?thesis using assms by simp
  qed
qed

lemma mkdir_leaf_idem:
  assumes "mkdir_leaf fs p True = (r, fs')"
  shows "mkdir_leaf fs' p True = (r, fs')"
proof (cases rule: mkdir_leaf_cases [of fs p])
  case made
  then have fs': "fs' = fs\<lparr>nodes := (nodes fs)(p \<mapsto> Dir)\<rparr>" and r: "r = None"
    using assms by simp_all
  have "lookup fs' p = Some Dir" using fs' made(2) by (simp add: lookup_nodes)
  then show ?thesis
    using r by (cases rule: mkdir_leaf_cases [of fs' p]) simp_all
next
  case present
  then show ?thesis using assms by simp
next
  case (failed e)
  then show ?thesis using assms by simp
qed

lemma mkdir_leaf_keeps_head:
  assumes "mkdir_leaf fs p True = (r, fs')" and "os_path_exists fs (butlast p)"
  shows "os_path_exists fs' (butlast p)"
proof (cases rule: mkdir_leaf_cases [of fs p])
  case made
  then have "fs' = fs\<lparr>nodes := (nodes fs)(p \<mapsto> Dir)\<rparr>" using assms by simp
  moreover have "butlast p \<noteq> p" using made(2) by (metis length_butlast diff_less length_greater_0_conv less_numeral_extra(1) nat_neq_iff)
  ultimately show ?thesis using assms(2) by (auto simp: os_path_exists_def lookup_def)
next
  case present
  then show ?thesis using assms by simp
next
  case (failed e)
  then show ?thesis using assms by simp
qed

lemma mkdir_leaf_head_missing:
  assumes "mkdir_leaf fs p True = (r, fs')" and "\<not> os_path_exists fs (butlast p)"
  shows "fs' = fs"
  using assms by (cases rule: mkdir_leaf_cases [of fs p]) (simp_all add: os_path_exists_def)

lemma os_makedirs_idem:
  "os_makedirs fs p True = (r, fs') \<Longrightarrow> os_makedirs fs' p True = (r, fs')"
proof (induction "length p" arbitrary: p fs r fs' rule: less_induct)
  case less
  show ?case
  proof (cases "p = []")
    case True
    then show ?thesis using less.prems by (simp add: os_makedirs_Nil)
  next
    case False
    then have lh: "length (butlast p) < length p" by simp
    show ?thesis
    proof (cases "os_path_exists fs (butlast p)")
      case True
      then have m: "mkdir_leaf fs p True = (r, fs')"
        using less.prems False by (simp add: os_makedirs_head_exists)
      then have "os_path_exists fs' (butlast p)" using True by (rule mkdir_leaf_keeps_head)
      then show ?thesis
        using False mkdir_leaf_idem [OF m] by (simp add: os_makedirs_head_exists)
    next
      case miss: False
      obtain e1 fs1 where h: "os_makedirs fs (butlast p) True = (e1, fs1)"
        by (cases "os_makedirs fs (butlast p) True")
      have h': "os_makedirs fs1 (butlast p) True = (e1, fs1)"
        using less.hyps [OF lh h] .
      show ?thesis
      proof (cases e1)
        case None
        then have m: "mkdir_leaf fs1 p True = (r, fs')"
          using less.prems False miss h by (simp add: os_makedirs_head_missing)
        have "os_path_exists fs1 (butlast p)"
          using os_makedirs_returned_isdir h None by (simp add: os_path_exists_def)
        then have "os_path_exists fs' (butlast p)" using m mkdir_leaf_keeps_head by blast
        then show ?thesis
          using False mkdir_leaf_idem [OF m] by (simp add: os_makedirs_head_exists)
      next
        case (Some e)
        have miss1: "\<not> os_path_exists fs1 (butlast p)"
          using os_makedirs_failed_lookup [of fs "butlast p" e fs1] h Some miss
          by (simp add: os_path_exists_def)
        show ?thesis
        proof (cases "e = FileExistsError")
          case True
          then have m: "mkdir_leaf fs1 p True = (r, fs')"
            using less.prems False miss h Some by (simp add: os_makedirs_head_missing)
          then have "fs' = fs1" using miss1 by (rule mkdir_leaf_head_missing)
          then show ?thesis
            using False miss1 h' Some True m by (simp add: os_makedirs_head_missing)
        next
          case ne: False
          then have "(r, fs') = (Some e, fs1)"
            using less.prems False miss h Some
            by (auto simp: os_makedirs_head_missing split: exn.splits)
          then show ?thesis
            using False miss1 h' Some ne
            by (auto simp: os_makedirs_head_missing split: exn.splits)
        qed
      qed
    qed
  qed
qed

lemma create_dir_cases:
  obtains (created) fs1 where "os_makedirs (disk w) p True = (None, fs1)"
      "lookup fs1 p = Some Dir" "create_dir p w = (True, w\<lparr>disk := fs1\<rparr>)"
  | (failed) e fs1 where "os_makedirs (disk w) p True = (Some e, fs1)"
      "create_dir p w = (False, print (PrintedExn e) (w\<lparr>disk := fs1\<rparr>))"
proof (cases "os_makedirs (disk w) p True")
  case (Pair r fs1)
  show ?thesis
  proof (cases r)
    case None
    then have d: "lookup fs1 p = Some Dir"
      using Pair os_makedirs_returned_isdir by blast
    then have "create_dir p w = (True, w\<lparr>disk := fs1\<rparr>)"
      using Pair None by (simp add: create_dir_def os_path_exists_def)
    then show ?thesis using created Pair None d by blast
  next
    case (Some e)
    then have "create_dir p w = (False, print (PrintedExn e) (w\<lparr>disk := fs1\<rparr>))"
      using Pair by (simp add: create_dir_def)
    then show ?thesis using failed Pair Some by blast
  qed
qed

lemma create_dir_True_again:
  assumes "create_dir p w = (True, w')"
  shows "create_dir p w' = (True, w')" and "os_path_isdir (disk w') p"
proof -
  obtain fs1 where m: "os_makedirs (disk w) p True = (None, fs1)"
      and d: "lookup fs1 p = Some Dir" and w': "w' = w\<lparr>disk := fs1\<rparr>"
    using assms by (cases rule: create_dir_cases [of w p]) auto
  have "os_makedirs (disk w') p True = (None, disk w')"
    using os_makedirs_idem [OF m] w' by simp
  then show "create_dir p w' = (True, w')"
    using d w' by (simp add: create_dir_def os_path_exists_def)
  show "os_path_isdir (disk w') p" using d w' by (simp add: os_path_isdir_def)
qed

lemma create_dir_again:
  "fst (create_dir p (snd (create_dir p w))) = fst (create_dir p w) \<and>
   disk (snd (create_dir p (snd (create_dir p w)))) = disk (snd (create_dir p w))"
proof (cases rule: create_dir_cases [of w p])
  case (created fs1)
  then show ?thesis using create_dir_True_again(1) [of p w "w\<lparr>disk := fs1\<rparr>"] by simp
next
  case (failed e fs1)
  let ?w' = "print (PrintedExn e) (w\<lparr>disk := fs1\<rparr>)"
  have "os_makedirs (disk ?w') p True = (Some e, fs1)"
    using os_makedirs_idem [OF failed(1)] by (simp add: print_def)
  then show ?thesis using failed(2) by (simp add: create_dir_def print_def)
qed

lemma create_dir_file_collision:
  assumes "lookup (disk w) p = Some (File c)"
  shows "fst (create_dir p w) = False"
proof -
  have ne: "p \<noteq> []" using assms by (auto simp: lookup_def)
  have "\<exists>e fs1. os_makedirs (disk w) p True = (Some e, fs1)"
    using ne
  proof (cases rule: os_makedirs_shape [where fs = "disk w"])
    case (leaf fsh)
    then have "lookup fsh p = Some (File c)" using assms ne by (simp add: lookup_nodes)
    then show ?thesis
      using leaf(1) by (cases rule: mkdir_leaf_cases [of fsh p]) simp_all
  next
    case (head_failed e fsh)
    then show ?thesis by blast
  qed
  then show ?thesis by (auto simp: create_dir_def)
qed

lemma create_dir_permission:
  assumes "p \<noteq> []" and "lookup (disk w) p = None" and "lookup (disk w) (butlast p) = Some Dir"
      and "butlast p \<in> protected (disk w)"
  shows "create_dir p w = (False, print (PrintedExn PermissionError) w)"
proof -
  have "os_mkdir (disk w) p = Inl PermissionError"
    using assms by (simp add: os_mkdir_def)
  then have "os_makedirs (disk w) p True = (Some PermissionError, disk w)"
    using assms by (simp add: os_makedirs_head_exists os_path_exists_def mkdir_leaf_def os_path_isdir_def)
  then show ?thesis by (simp add: create_dir_def)
qed

lemma create_dir_exists:
  assumes "os_path_isdir (disk w) p" and "os_path_exists (disk w) (butlast p)"
  shows "create_dir p w = (True, w)"
proof (cases "p = []")
  case True
  then show ?thesis by (simp add: create_dir_def os_makedirs_Nil os_path_exists_def)
next
  case False
  have "mkdir_leaf (disk w) p True = (None, disk w)"
    using assms(1) by (cases rule: mkdir_leaf_cases [of "disk w" p]) (simp_all add: os_path_isdir_def)
  then show ?thesis
    using assms False by (simp add: create_dir_def os_makedirs_head_exists os_path_exists_def os_path_isdir_def)
qed

lemma mkdir_leaf_files: "files (snd (mkdir_leaf fs p True)) = files fs"
  by (cases rule: mkdir_leaf_cases [of fs p]) (auto simp: files_def lookup_def split: if_splits)

lemma os_makedirs_files: "files (snd (os_makedirs fs p True)) = files fs"
proof (induction "length p" arbitrary: p fs rule: less_induct)
  case less
  show ?case
  proof (cases "p = []")
    case True
    then show ?thesis by (simp add: os_makedirs_Nil)
  next
    case False
    then have lh: "length (butlast p) < length p" by simp
    show ?thesis
    proof (cases "os_path_exists fs (butlast p)")
      case True
      then show ?thesis
        using False by (simp add: os_makedirs_head_exists mkdir_leaf_files)
    next
      case miss: False
      obtain e1 fs1 where r: "os_makedirs fs (butlast p) True = (e1, fs1)"
        by (cases "os_makedirs fs (butlast p) True")
      have "files fs1 = files fs"
        using less.hyps [OF lh, of fs] r by simp
      then show ?thesis
        using False miss r mkdir_leaf_files [of fs1 p]
        by (auto simp: os_makedirs_head_missing split: option.splits exn.splits)
    qed
  qed
qed

lemma create_dir_files: "files (disk (snd (create_dir p w))) = files (disk w)"
  using os_makedirs_files [of "disk w" p]
  by (cases rule: create_dir_cases [of w p]) (simp_all add: print_def)

text \<open>
  Claim C8. \<^verbatim>\<open>create_dir\<close> returns a truth value for every path and every file system.
  When a call has returned \<^verbatim>\<open>True\<close>, the path is a directory and a second call
  returns \<^verbatim>\<open>True\<close> and leaves the whole world as it is. Whatever the first call
  returned, the second returns the same and leaves the file system unchanged. When the
  path is an existing regular file, or a directory would have to be made in a protected
  directory, the call returns \<^verbatim>\<open>False\<close>.
\<close>

theorem create_dir_idempotent:
  "(create_dir p w = (True, w') \<longrightarrow> create_dir p w' = (True, w') \<and> os_path_isdir (disk w') p) \<and>
   fst (create_dir p (snd (create_dir p w))) = fst (create_dir p w) \<and>
   disk (snd (create_dir p (snd (create_dir p w)))) = disk (snd (create_dir p w)) \<and>
   (lookup (disk w) p = Some (File c) \<longrightarrow> fst (create_dir p w) = False) \<and>
   (p \<noteq> [] \<and> lookup (disk w) p = None \<and> lookup (disk w) (butlast p) = Some Dir \<and>
    butlast p \<in> protected (disk w) \<longrightarrow>
      create_dir p w = (False, print (PrintedExn PermissionError) w))"
  using create_dir_True_again [of p w w'] create_dir_again [of p w]
    create_dir_file_collision [of w p c] create_dir_permission [of p w]
  by blast

lemma create_dir_example:
  "create_dir [''out'', ''sub''] example_world =
     (True, example_world\<lparr>disk := (disk example_world)\<lparr>nodes :=
        (nodes (disk example_world))([''out''] \<mapsto> Dir, [''out'', ''sub''] \<mapsto> Dir)\<rparr>\<rparr>)"
  by (simp add: create_dir_def example_world_def os_makedirs_head_missing os_makedirs_head_exists
        os_makedirs_Nil os_path_exists_def lookup_def mkdir_leaf_def os_mkdir_def os_path_isdir_def)

theorem create_dir_idempotent_witness:
  "create_dir [''out'', ''sub''] example_world =
     (True, example_world\<lparr>disk := (disk example_world)\<lparr>nodes :=
        (nodes (disk example_world))([''out''] \<mapsto> Dir, [''out'', ''sub''] \<mapsto> Dir)\<rparr>\<rparr>) \<and>
   create_dir [''out'', ''sub'']
     (example_world\<lparr>disk := (disk example_world)\<lparr>nodes :=
        (nodes (disk example_world))([''out''] \<mapsto> Dir, [''out'', ''sub''] \<mapsto> Dir)\<rparr>\<rparr>) =
     (True, example_world\<lparr>disk := (disk example_world)\<lparr>nodes :=
        (nodes (disk example_world))([''out''] \<mapsto> Dir, [''out'', ''sub''] \<mapsto> Dir)\<rparr>\<rparr>) \<and>
   lookup (disk example_world) [''data'', ''old.csv''] = Some (File ''x'') \<and>
   fst (create_dir [''data'', ''old.csv''] example_world) = False \<and>
   lookup (disk example_world) [''ro'', ''new''] = None \<and>
   lookup (disk example_world) (butlast [''ro'', ''new'']) = Some Dir \<and>
   butlast [''ro'', ''new''] \<in> protected (disk example_world) \<and>
   create_dir [''ro'', ''new''] example_world =
     (False, print (PrintedExn PermissionError) example_world)"
proof -
  let ?w1 = "example_world\<lparr>disk := (disk example_world)\<lparr>nodes :=
        (nodes (disk example_world))([''out''] \<mapsto> Dir, [''out'', ''sub''] \<mapsto> Dir)\<rparr>\<rparr>"
  have a: "create_dir [''out'', ''sub''] ?w1 = (True, ?w1)"
    using create_dir_idempotent [of "[''out'', ''sub'']" example_world ?w1] create_dir_example
    by blast
  have b1: "lookup (disk example_world) [''data'', ''old.csv''] = Some (File ''x'')"
    by (simp add: example_world_def lookup_def)
  have b: "fst (create_dir [''data'', ''old.csv''] example_world) = False"
    using create_dir_idempotent [of "[''data'', ''old.csv'']" example_world _ "''x''"] b1
    by blast
  have c1: "lookup (disk example_world) [''ro'', ''new''] = None"
      "lookup (disk example_world) (butlast [''ro'', ''new'']) = Some Dir"
      "butlast [''ro'', ''new''] \<in> protected (disk example_world)"
    by (simp_all add: example_world_def lookup_def)
  have c: "create_dir [''ro'', ''new''] example_world =
     (False, print (PrintedExn PermissionError) example_world)"
    using create_dir_idempotent [of "[''ro'', ''new'']" example_world] c1 by blast
  show ?thesis using create_dir_example a b1 b c1 c by blast
qed

section \<open>Saving a table\<close>

lemma path_str_nonempty: "path_str p \<noteq> ''''"
  by (cases p) (simp_all add: path_str_def)

lemma atomic_write_cases:
  obtains (written) content where "body = Inr content"
      "atomic_write fs dest body = (None, fs\<lparr>nodes := (nodes fs)(dest \<mapsto> File content)\<rparr>)"
      "dest \<noteq> []" "lookup fs (butlast dest) = Some Dir" "butlast dest \<notin> protected fs"
      "lookup fs dest \<noteq> Some Dir"
  | (failed) e where "atomic_write fs dest body = (Some e, fs)"
  by (cases "atomic_write fs dest body")
     (auto simp: atomic_write_def split: if_splits option.splits node.splits sum.splits)

lemma create_dir_utcnow: "utcnow (snd (create_dir p w)) = utcnow w"
  by (cases rule: create_dir_cases [of w p]) (simp_all add: print_def)

lemma save_no_data:
  "(case df of DataFrame d \<Rightarrow> rows d = [] | _ \<Rightarrow> True) \<Longrightarrow>
   save_df_as_csv v df path filename comment kw w = ('''', print PrintedNoData w)"
  by (cases df) (simp_all add: save_df_as_csv_def)

lemma print_simps [simp]:
  "utcnow (print x w) = utcnow w" "disk (print x w) = disk w"
  "stdout (print x w) = stdout w @ [x]"
  by (simp_all add: print_def)

lemma print_disk_same: "(print x w)\<lparr>disk := disk w\<rparr> = print x w"
  by (simp add: print_def)

lemma save_unfold:
  assumes "rows d \<noteq> []" and "create_dir path w = (True, w1)"
  shows "save_df_as_csv v (DataFrame d) path filename comment kw w =
     (case atomic_write (disk w1) (os_path_join path filename)
             (case to_csv d ''--'' kw of
                Inl e \<Rightarrow> Inl e
              | Inr table \<Rightarrow>
                  Inr (provenance_line v @ timestamp_line (utcnow w) @ comment @ table)) of
        (None, fs1) \<Rightarrow>
          (path_str (os_path_join path filename),
           (print (PrintedSaving (os_path_join path filename)) w1)\<lparr>disk := fs1\<rparr>)
      | (Some err, fs1) \<Rightarrow>
          ('''', print (PrintedExn err)
                  ((print (PrintedSaving (os_path_join path filename)) w1)\<lparr>disk := fs1\<rparr>)))"
proof -
  have u: "utcnow w1 = utcnow w" using create_dir_utcnow [of path w] assms(2) by simp
  show ?thesis
    using assms u
    by (cases "to_csv d ''--'' kw") (simp_all add: save_df_as_csv_def Let_def)
qed

lemma save_cases:
  assumes "rows d \<noteq> []"
  obtains (no_dir) w1 where "create_dir path w = (False, w1)"
      "save_df_as_csv v (DataFrame d) path filename comment kw w = ('''', w1)"
  | (written) w1 table where "create_dir path w = (True, w1)"
      "to_csv d ''--'' kw = Inr table"
      "save_df_as_csv v (DataFrame d) path filename comment kw w =
         (path_str (os_path_join path filename),
          (print (PrintedSaving (os_path_join path filename)) w1)
            \<lparr>disk := (disk w1)\<lparr>nodes := (nodes (disk w1))(os_path_join path filename \<mapsto>
               File (provenance_line v @ timestamp_line (utcnow w) @ comment @ table))\<rparr>\<rparr>)"
  | (write_failed) w1 e where "create_dir path w = (True, w1)"
      "save_df_as_csv v (DataFrame d) path filename comment kw w =
         ('''', print (PrintedExn e) (print (PrintedSaving (os_path_join path filename)) w1))"
proof (cases "create_dir path w")
  case (Pair b w1)
  show ?thesis
  proof (cases b)
    case False
    then show ?thesis using no_dir Pair assms by (simp add: save_df_as_csv_def)
  next
    case True
    let ?dest = "os_path_join path filename"
    let ?body = "case to_csv d ''--'' kw of Inl e \<Rightarrow> Inl e
      | Inr table \<Rightarrow> Inr (provenance_line v @ timestamp_line (utcnow w) @ comment @ table)"
    have c: "create_dir path w = (True, w1)" using Pair True by simp
    note s = save_unfold [OF assms c, of v filename comment kw]
    show ?thesis
    proof (cases rule: atomic_write_cases [of ?body "disk w1" ?dest])
      case (written content)
      then obtain table where t: "to_csv d ''--'' kw = Inr table"
          "content = provenance_line v @ timestamp_line (utcnow w) @ comment @ table"
        by (auto split: sum.splits)
      show ?thesis
        using written(2) t s c
        by (intro that(2) [of w1 table]) simp_all
    next
      case (failed e)
      then show ?thesis
        using s c print_disk_same [where x = "PrintedSaving ?dest" and w = w1]
        by (intro write_failed [of w1 e]) simp_all
    qed
  qed
qed

lemma save_result:
  "fst (save_df_as_csv v df path filename comment kw w) = '''' \<and>
     files (disk (snd (save_df_as_csv v df path filename comment kw w))) = files (disk w) \<or>
   fst (save_df_as_csv v df path filename comment kw w) = path_str (os_path_join path filename) \<and>
     (\<exists>content.
        lookup (disk (snd (save_df_as_csv v df path filename comment kw w)))
          (os_path_join path filename) = Some (File content))"
proof (cases "case df of DataFrame d \<Rightarrow> rows d = [] | _ \<Rightarrow> True")
  case True
  then show ?thesis by (simp add: save_no_data)
next
  case False
  then obtain d where d: "df = DataFrame d" "rows d \<noteq> []"
    by (cases df) auto
  from d(2) show ?thesis
  proof (cases rule: save_cases [where path = path and w = w and v = v and filename = filename
        and comment = comment and kw = kw])
    case (no_dir w1)
    then show ?thesis using create_dir_files [of path w] d(1) by simp
  next
    case (written w1 table)
    then show ?thesis using d(1) by (simp add: lookup_def os_path_join_def)
  next
    case (write_failed w1 e)
    then show ?thesis using create_dir_files [of path w] d(1) by simp
  qed
qed

lemma save_serialization_error:
  assumes "rows d \<noteq> []" and "to_csv d ''--'' kw = Inl e"
  shows "fst (save_df_as_csv v (DataFrame d) path filename comment kw w) = ''''"
  using assms(1)
proof (cases rule: save_cases [where path = path and w = w and v = v and filename = filename
      and comment = comment and kw = kw])
  case (no_dir w1)
  then show ?thesis by simp
next
  case (written w1 table)
  then show ?thesis using assms(2) by simp
next
  case (write_failed w1 e)
  then show ?thesis by simp
qed

lemma save_no_dir:
  assumes "rows d \<noteq> []" and "fst (create_dir path w) = False"
  shows "save_df_as_csv v (DataFrame d) path filename comment kw w = ('''', snd (create_dir path w))"
  using assms by (cases "create_dir path w") (simp add: save_df_as_csv_def)

lemma save_written_content:
  assumes "save_df_as_csv v df path filename comment kw w = (r, w')" and "r \<noteq> ''''"
  shows "\<exists>d. df = DataFrame d \<and> rows d \<noteq> [] \<and>
           lookup (disk w') (os_path_join path filename) =
             Some (File (provenance_line v @ timestamp_line (utcnow w) @ comment @
                         concat ((if header kw then [header_row kw d] else []) @
                                 map (data_row ''--'' kw) (rows d))))"
proof (cases "case df of DataFrame d \<Rightarrow> rows d = [] | _ \<Rightarrow> True")
  case True
  then show ?thesis using assms by (simp add: save_no_data)
next
  case False
  then obtain d where d: "df = DataFrame d" "rows d \<noteq> []"
    by (cases df) auto
  from d(2) show ?thesis
  proof (cases rule: save_cases [where path = path and w = w and v = v and filename = filename
        and comment = comment and kw = kw])
    case (no_dir w1)
    then show ?thesis using assms d(1) by simp
  next
    case (written w1 table)
    have "table = concat ((if header kw then [header_row kw d] else []) @
                                 map (data_row ''--'' kw) (rows d))"
      using written(2) by (simp add: to_csv_def split: if_splits)
    then show ?thesis
      using written(3) assms d by (auto simp: lookup_def os_path_join_def)
  next
    case (write_failed w1 e)
    then show ?thesis using assms d(1) by simp
  qed
qed

lemma save_example_no_header:
  "save_df_as_csv ''1.0.4'' (DataFrame example_df) [''data''] ''f.csv'' '''' (no_kwargs\<lparr>header := False\<rparr>) example_world =
     (''/data/f.csv'',
      (print (PrintedSaving [''data'', ''f.csv'']) example_world)\<lparr>disk := (disk example_world)\<lparr>nodes :=
         (nodes (disk example_world))([''data'', ''f.csv''] \<mapsto>
            File ''# Generated by lineage v1.0.4, https://github.com/apriha/lineage\<newline># Generated at 2019-03-07 09:05:00 UTC\<newline>rs1,1,100\<newline>rs2,--,200\<newline>'')\<rparr>\<rparr>)"
proof -
  have c: "create_dir [''data''] example_world = (True, example_world)"
    by (rule create_dir_exists) (simp_all add: example_world_def os_path_isdir_def os_path_exists_def lookup_def)
  have r: "rows example_df \<noteq> []" by (simp add: example_df_def)
  have t: "to_csv example_df ''--'' (no_kwargs\<lparr>header := False\<rparr>) = Inr ''rs1,1,100\<newline>rs2,--,200\<newline>''"
    by (simp add: to_csv_def no_kwargs_def example_df_def data_row_def csv_line_def render_cell_def)
  have ts: "timestamp_line (utcnow example_world) = ''# Generated at 2019-03-07 09:05:00 UTC\<newline>''"
    by (simp add: timestamp_line_def example_world_def strftime_def pad2_def pad4_def digit_def)
  show ?thesis
    unfolding save_unfold [OF r c] t ts
    by (simp add: atomic_write_def os_path_join_def path_str_def provenance_line_def example_world_def lookup_def print_def)
qed

lemma save_example_default:
  "save_df_as_csv ''1.0.4'' (DataFrame example_df) [''out'', ''sub''] ''f.csv'' ''# hello\<newline>'' no_kwargs example_world =
     (''/out/sub/f.csv'',
      (print (PrintedSaving [''out'', ''sub'', ''f.csv''])
         (example_world\<lparr>disk := (disk example_world)\<lparr>nodes :=
            (nodes (disk example_world))([''out''] \<mapsto> Dir, [''out'', ''sub''] \<mapsto> Dir)\<rparr>\<rparr>))
        \<lparr>disk := (disk example_world)\<lparr>nodes :=
           (nodes (disk example_world))([''out''] \<mapsto> Dir, [''out'', ''sub''] \<mapsto> Dir,
              [''out'', ''sub'', ''f.csv''] \<mapsto>
                File ''# Generated by lineage v1.0.4, https://github.com/apriha/lineage\<newline># Generated at 2019-03-07 09:05:00 UTC\<newline># hello\<newline>,chrom,pos\<newline>rs1,1,100\<newline>rs2,--,200\<newline>'')\<rparr>\<rparr>)"
proof -
  have r: "rows example_df \<noteq> []" by (simp add: example_df_def)
  have t: "to_csv example_df ''--'' no_kwargs = Inr '',chrom,pos\<newline>rs1,1,100\<newline>rs2,--,200\<newline>''"
    by (simp add: to_csv_def no_kwargs_def example_df_def header_row_def data_row_def
          csv_line_def render_cell_def)
  have ts: "timestamp_line (utcnow example_world) = ''# Generated at 2019-03-07 09:05:00 UTC\<newline>''"
    by (simp add: timestamp_line_def example_world_def strftime_def pad2_def pad4_def digit_def)
  show ?thesis
    unfolding save_unfold [OF r create_dir_example] t ts
    by (simp add: atomic_write_def os_path_join_def path_str_def provenance_line_def
          example_world_def lookup_def print_def)
qed

subsection \<open>What the function returns\<close>

text \<open>
  Claim C4. \<^verbatim>\<open>save_df_as_csv\<close> returns a string for every input. Either it returns the
  empty string and the regular files are what they were, or it returns the destination,
  the directory joined with the file name, and the destination is then a regular file.
  If \<^verbatim>\<open>create_dir\<close> fails for a table with rows, the function returns the empty
  string and the world is as \<^verbatim>\<open>create_dir\<close> left it, with no file written. If
  \<^verbatim>\<open>to_csv\<close> raises, the function returns the empty string.
\<close>

theorem save_df_as_csv_returns:
  "(fst (save_df_as_csv v df path filename comment kw w) = '''' \<and>
      files (disk (snd (save_df_as_csv v df path filename comment kw w))) = files (disk w) \<or>
    fst (save_df_as_csv v df path filename comment kw w) = path_str (os_path_join path filename) \<and>
      (\<exists>content.
         lookup (disk (snd (save_df_as_csv v df path filename comment kw w)))
           (os_path_join path filename) = Some (File content))) \<and>
   (rows d \<noteq> [] \<and> fst (create_dir path w) = False \<longrightarrow>
      save_df_as_csv v (DataFrame d) path filename comment kw w =
        ('''', snd (create_dir path w)) \<and>
      files (disk (snd (create_dir path w))) = files (disk w)) \<and>
   (rows d \<noteq> [] \<and> to_csv d ''--'' kw = Inl e \<longrightarrow>
      fst (save_df_as_csv v (DataFrame d) path filename comment kw w) = '''')"
  using save_result [of v df path filename comment kw w]
    save_no_dir [of d path w v filename comment kw] create_dir_files [of path w]
    save_serialization_error [of d kw e v path filename comment w]
  by blast

theorem save_df_as_csv_returns_witness:
  "fst (save_df_as_csv ''1.0.4'' (DataFrame example_df) [''out'', ''sub''] ''f.csv''
          ''# hello\<newline>'' no_kwargs example_world) = ''/out/sub/f.csv'' \<and>
   (\<exists>content.
      lookup (disk (snd (save_df_as_csv ''1.0.4'' (DataFrame example_df) [''out'', ''sub'']
                ''f.csv'' ''# hello\<newline>'' no_kwargs example_world)))
        (os_path_join [''out'', ''sub''] ''f.csv'') = Some (File content)) \<and>
   rows example_df \<noteq> [] \<and>
   fst (create_dir [''ro'', ''new''] example_world) = False \<and>
   save_df_as_csv ''1.0.4'' (DataFrame example_df) [''ro'', ''new''] ''f.csv'' '''' no_kwargs
     example_world = ('''', snd (create_dir [''ro'', ''new''] example_world)) \<and>
   to_csv example_df ''--'' (no_kwargs\<lparr>sep := ''ab''\<rparr>) = Inl TypeError \<and>
   fst (save_df_as_csv ''1.0.4'' (DataFrame example_df) [''data''] ''f.csv'' ''''
          (no_kwargs\<lparr>sep := ''ab''\<rparr>) example_world) = ''''"
proof -
  have a: "fst (save_df_as_csv ''1.0.4'' (DataFrame example_df) [''out'', ''sub''] ''f.csv''
          ''# hello\<newline>'' no_kwargs example_world) = ''/out/sub/f.csv''"
    by (simp add: save_example_default)
  have a': "\<exists>content.
      lookup (disk (snd (save_df_as_csv ''1.0.4'' (DataFrame example_df) [''out'', ''sub'']
                ''f.csv'' ''# hello\<newline>'' no_kwargs example_world)))
        (os_path_join [''out'', ''sub''] ''f.csv'') = Some (File content)"
    using save_df_as_csv_returns [of "''1.0.4''" "DataFrame example_df" "[''out'', ''sub'']"
        "''f.csv''" "''# hello\<newline>''" no_kwargs example_world] a
    by auto
  have r: "rows example_df \<noteq> []" by (simp add: example_df_def)
  have b: "fst (create_dir [''ro'', ''new''] example_world) = False"
    by (simp add: create_dir_permission example_world_def lookup_def)
  have b': "save_df_as_csv ''1.0.4'' (DataFrame example_df) [''ro'', ''new''] ''f.csv'' '''' no_kwargs
     example_world = ('''', snd (create_dir [''ro'', ''new''] example_world))"
    using save_df_as_csv_returns [where path = "[''ro'', ''new'']" and w = example_world
        and d = example_df and v = "''1.0.4''" and filename = "''f.csv''" and comment = "''''"
        and kw = no_kwargs] r b
    by blast
  have c: "to_csv example_df ''--'' (no_kwargs\<lparr>sep := ''ab''\<rparr>) = Inl TypeError"
    by (simp add: to_csv_def no_kwargs_def)
  have c': "fst (save_df_as_csv ''1.0.4'' (DataFrame example_df) [''data''] ''f.csv'' ''''
          (no_kwargs\<lparr>sep := ''ab''\<rparr>) example_world) = ''''"
    using save_df_as_csv_returns [where path = "[''data'']" and w = example_world
        and d = example_df and v = "''1.0.4''" and filename = "''f.csv''" and comment = "''''"
        and kw = "no_kwargs\<lparr>sep := ''ab''\<rparr>" and e = TypeError] r c
    by blast
  show ?thesis using a a' r b b' c c' by blast
qed

subsection \<open>The text of the file\<close>

text \<open>
  Claim C5, as the code has it. When \<^verbatim>\<open>save_df_as_csv\<close> returns a destination, its first
  argument was a table with rows, and the file at the destination consists of the
  provenance line, the time-stamp line with the UTC time of the call (both start with
  \<^verbatim>\<open>#\<close> and end with a newline), then the comment of the caller as it is, then the text
  of \<^verbatim>\<open>to_csv\<close> under the keyword arguments of the caller: the header row of column
  names unless the caller has passed \<^verbatim>\<open>header=False\<close>, then one line per row of the
  table, in which every missing cell is the two characters \<^verbatim>\<open>--\<close>.
\<close>

theorem save_df_as_csv_file_format:
  "(save_df_as_csv v df path filename comment kw w = (r, w') \<and> r \<noteq> '''' \<longrightarrow>
      (\<exists>d. df = DataFrame d \<and> rows d \<noteq> [] \<and>
           lookup (disk w') (os_path_join path filename) =
             Some (File (provenance_line v @ timestamp_line (utcnow w) @ comment @
                         concat ((if header kw then [header_row kw d] else []) @
                                 map (data_row ''--'' kw) (rows d)))))) \<and>
   take 2 (provenance_line v) = ''# '' \<and> last (provenance_line v) = CHR 0x0A \<and>
   take 2 (timestamp_line t) = ''# '' \<and> last (timestamp_line t) = CHR 0x0A \<and>
   header_row kw d' = csv_line (sep kw) ((if index kw then [''''] else []) @ columns d') \<and>
   data_row ''--'' kw (label, cells) =
     csv_line (sep kw) ((if index kw then [label] else []) @ map (render_cell ''--'') cells) \<and>
   render_cell ''--'' None = ''--'' \<and> render_cell ''--'' (Some c) = c"
  using save_written_content [of v df path filename comment kw w r w']
  by (simp add: provenance_line_def timestamp_line_def header_row_def data_row_def render_cell_def)

theorem save_df_as_csv_file_format_witness:
  "save_df_as_csv ''1.0.4'' (DataFrame example_df) [''out'', ''sub''] ''f.csv'' ''# hello\<newline>''
     no_kwargs example_world =
     (''/out/sub/f.csv'',
      (print (PrintedSaving [''out'', ''sub'', ''f.csv''])
         (example_world\<lparr>disk := (disk example_world)\<lparr>nodes :=
            (nodes (disk example_world))([''out''] \<mapsto> Dir, [''out'', ''sub''] \<mapsto> Dir)\<rparr>\<rparr>))
        \<lparr>disk := (disk example_world)\<lparr>nodes :=
           (nodes (disk example_world))([''out''] \<mapsto> Dir, [''out'', ''sub''] \<mapsto> Dir,
              [''out'', ''sub'', ''f.csv''] \<mapsto>
                File ''# Generated by lineage v1.0.4, https://github.com/apriha/lineage\<newline># Generated at 2019-03-07 09:05:00 UTC\<newline># hello\<newline>,chrom,pos\<newline>rs1,1,100\<newline>rs2,--,200\<newline>'')\<rparr>\<rparr>) \<and>
   ''/out/sub/f.csv'' \<noteq> '''' \<and>
   (\<exists>d. DataFrame example_df = DataFrame d \<and> rows d \<noteq> [] \<and>
      lookup
        (disk ((print (PrintedSaving [''out'', ''sub'', ''f.csv''])
         (example_world\<lparr>disk := (disk example_world)\<lparr>nodes :=
            (nodes (disk example_world))([''out''] \<mapsto> Dir, [''out'', ''sub''] \<mapsto> Dir)\<rparr>\<rparr>))
        \<lparr>disk := (disk example_world)\<lparr>nodes :=
           (nodes (disk example_world))([''out''] \<mapsto> Dir, [''out'', ''sub''] \<mapsto> Dir,
              [''out'', ''sub'', ''f.csv''] \<mapsto>
                File ''# Generated by lineage v1.0.4, https://github.com/apriha/lineage\<newline># Generated at 2019-03-07 09:05:00 UTC\<newline># hello\<newline>,chrom,pos\<newline>rs1,1,100\<newline>rs2,--,200\<newline>'')\<rparr>\<rparr>))
        (os_path_join [''out'', ''sub''] ''f.csv'') =
      Some (File (provenance_line ''1.0.4'' @ timestamp_line (utcnow example_world) @
                  ''# hello\<newline>'' @
                  concat ((if header no_kwargs then [header_row no_kwargs d] else []) @
                          map (data_row ''--'' no_kwargs) (rows d)))))"
proof -
  have ne: "''/out/sub/f.csv'' \<noteq> ''''" by simp
  show ?thesis
    using save_df_as_csv_file_format [THEN conjunct1, rule_format,
        OF conjI [OF save_example_default ne]] save_example_default ne
    by blast
qed

text \<open>
  The claim as the specification states it fails: with \<^verbatim>\<open>header=False\<close> among the
  keyword arguments the table is written with success and the file has no header row;
  the first data row follows the time-stamp line.
\<close>

theorem save_df_as_csv_header_counterexample:
  "fst (save_df_as_csv ''1.0.4'' (DataFrame example_df) [''data''] ''f.csv'' ''''
          (no_kwargs\<lparr>header := False\<rparr>) example_world) = ''/data/f.csv'' \<and>
   lookup (disk (snd (save_df_as_csv ''1.0.4'' (DataFrame example_df) [''data''] ''f.csv'' ''''
          (no_kwargs\<lparr>header := False\<rparr>) example_world))) [''data'', ''f.csv''] =
     Some (File ''# Generated by lineage v1.0.4, https://github.com/apriha/lineage\<newline># Generated at 2019-03-07 09:05:00 UTC\<newline>rs1,1,100\<newline>rs2,--,200\<newline>'')"
  by (simp add: save_example_no_header lookup_def)

subsection \<open>Nothing to save\<close>

text \<open>
  Claim C6. For a table with no rows \<^verbatim>\<open>save_df_as_csv\<close> returns the empty string and
  leaves the file system as it is; it only prints that there is no data. The empty
  string is not the destination of any write: a destination is never empty.
\<close>

theorem save_df_as_csv_empty_table:
  "(rows d = [] \<longrightarrow>
      save_df_as_csv v (DataFrame d) path filename comment kw w = ('''', print PrintedNoData w) \<and>
      disk (snd (save_df_as_csv v (DataFrame d) path filename comment kw w)) = disk w) \<and>
   path_str (os_path_join path filename) \<noteq> ''''"
  by (simp add: save_no_data path_str_nonempty)

theorem save_df_as_csv_empty_table_witness:
  "rows \<lparr>columns = [''chrom'', ''pos''], rows = []\<rparr> = [] \<and>
   save_df_as_csv ''1.0.4'' (DataFrame \<lparr>columns = [''chrom'', ''pos''], rows = []\<rparr>)
     [''out''] ''f.csv'' ''# hello\<newline>'' no_kwargs example_world =
     ('''', print PrintedNoData example_world) \<and>
   disk (snd (save_df_as_csv ''1.0.4'' (DataFrame \<lparr>columns = [''chrom'', ''pos''], rows = []\<rparr>)
     [''out''] ''f.csv'' ''# hello\<newline>'' no_kwargs example_world)) = disk example_world \<and>
   path_str (os_path_join [''out''] ''f.csv'') \<noteq> ''''"
  using save_df_as_csv_empty_table [of "\<lparr>columns = [''chrom'', ''pos''], rows = []\<rparr>"
      "''1.0.4''" "[''out'']" "''f.csv''" "''# hello\<newline>''" no_kwargs example_world]
  by simp

text \<open>
  Claim C10. For a first argument that is not a table \<^verbatim>\<open>save_df_as_csv\<close> returns the
  empty string and leaves the file system as it is, and it does exactly what it does for
  a table with no rows.
\<close>

theorem save_df_as_csv_not_a_table:
  "\<not> is_DataFrame df \<longrightarrow>
     save_df_as_csv v df path filename comment kw w = ('''', print PrintedNoData w) \<and>
     disk (snd (save_df_as_csv v df path filename comment kw w)) = disk w \<and>
     save_df_as_csv v df path filename comment kw w =
       save_df_as_csv v (DataFrame \<lparr>columns = cs, rows = []\<rparr>) path filename comment kw w"
  by (cases df) (simp_all add: save_no_data)

theorem save_df_as_csv_not_a_table_witness:
  "\<not> is_DataFrame NoneObj \<and>
   save_df_as_csv ''1.0.4'' NoneObj [''out''] ''f.csv'' '''' no_kwargs example_world =
     ('''', print PrintedNoData example_world) \<and>
   disk (snd (save_df_as_csv ''1.0.4'' NoneObj [''out''] ''f.csv'' '''' no_kwargs example_world)) =
     disk example_world \<and>
   save_df_as_csv ''1.0.4'' NoneObj [''out''] ''f.csv'' '''' no_kwargs example_world =
     save_df_as_csv ''1.0.4'' (DataFrame \<lparr>columns = [''chrom''], rows = []\<rparr>) [''out''] ''f.csv''
       '''' no_kwargs example_world"
proof -
  have n: "\<not> is_DataFrame NoneObj" by simp
  show ?thesis
    using save_df_as_csv_not_a_table [of NoneObj "''1.0.4''" "[''out'']" "''f.csv''" "''''"
        no_kwargs example_world "[''chrom'']"] n
    by blast
qed

end
